theory Spec2Isabelle
  imports Main
begin

section \<open>Strings\<close>

text \<open>
  A JavaScript string is modelled as a \<^typ>\<open>string\<close>, the bytes of its UTF-8
  encoding: two strings are equal, and a string is empty, exactly when their encodings
  are. An optional string parameter (\<open>alias?: string\<close>) is a \<^typ>\<open>string option\<close>;
  \<open>None\<close> stands for \<open>undefined\<close> and \<open>null\<close>.

  \<open>String.prototype.toLowerCase\<close> belongs to the language, with the case mapping of
  Unicode behind it. Every function of the registry and of the loader that calls it
  takes it as its first argument, \<open>toLowerCase\<close>, and the theorems hold for every
  function that has the two properties of \<open>lowercasing\<close>, as the one of JavaScript
  has: lowering a second time changes nothing, and only the empty string is lowered to
  the empty string.
\<close>

definition lowercasing :: "(string \<Rightarrow> string) \<Rightarrow> bool" where
  "lowercasing toLowerCase \<longleftrightarrow>
     (\<forall>s. toLowerCase (toLowerCase s) = toLowerCase s) \<and> (\<forall>s. (toLowerCase s = []) = (s = []))"

text \<open>
  On strings of ASCII characters \<open>toLowerCase\<close> maps the letters \<open>A\<close>..\<open>Z\<close> (codes
  65..90) to \<open>a\<close>..\<open>z\<close> and keeps every other character. \<open>toLowerCase_ascii\<close> is that
  function; the examples, all in ASCII, are evaluated with it.
\<close>

definition lower_char :: "char \<Rightarrow> char" where
  "lower_char c =
     (let n = (of_char c :: nat) in if 65 \<le> n \<and> n \<le> 90 then char_of (n + 32) else c)"

definition toLowerCase_ascii :: "string \<Rightarrow> string" where
  "toLowerCase_ascii s = map lower_char s"

text \<open>The condition \<open>if (x)\<close> on an optional string: \<open>undefined\<close>, \<open>null\<close>
  and the empty string are falsy.\<close>

fun truthy :: "string option \<Rightarrow> bool" where
  "truthy None = False"
| "truthy (Some s) = (s \<noteq> [])"

text \<open>\<open>x || d\<close> on an optional string.\<close>

fun or_else :: "string option \<Rightarrow> string \<Rightarrow> string" where
  "or_else None d = d"
| "or_else (Some s) d = (if s \<noteq> [] then s else d)"

text \<open>\<open>Array.prototype.join\<close>.\<close>

fun join :: "string \<Rightarrow> string list \<Rightarrow> string" where
  "join sep [] = []"
| "join sep [x] = x"
| "join sep (x # y # ys) = x @ sep @ join sep (y # ys)"

text \<open>A template literal renders \<open>undefined\<close> as the word itself.\<close>

fun render :: "string option \<Rightarrow> string" where
  "render None = ''undefined''"
| "render (Some s) = s"

section \<open>The JavaScript \<open>Map\<close>\<close>

text \<open>
  A \<open>Map\<close> keeps its entries in insertion order: \<open>set\<close> on a key that is present
  replaces the value in place, on a new key it appends the entry; \<open>delete\<close> removes
  the entry. The model is an association list.
\<close>

type_synonym ('k, 'v) jsmap = "('k \<times> 'v) list"

fun Map_get :: "('k, 'v) jsmap \<Rightarrow> 'k \<Rightarrow> 'v option" where
  "Map_get [] k = None"
| "Map_get ((k', v) # m) k = (if k' = k then Some v else Map_get m k)"

definition Map_has :: "('k, 'v) jsmap \<Rightarrow> 'k \<Rightarrow> bool" where
  "Map_has m k = (Map_get m k \<noteq> None)"

fun Map_set :: "'k \<Rightarrow> 'v \<Rightarrow> ('k, 'v) jsmap \<Rightarrow> ('k, 'v) jsmap" where
  "Map_set k v [] = [(k, v)]"
| "Map_set k v ((k', v') # m) = (if k' = k then (k, v) # m else (k', v') # Map_set k v m)"

fun Map_delete :: "'k \<Rightarrow> ('k, 'v) jsmap \<Rightarrow> ('k, 'v) jsmap" where
  "Map_delete k [] = []"
| "Map_delete k ((k', v') # m) = (if k' = k then Map_delete k m else (k', v') # Map_delete k m)"

definition Map_keys :: "('k, 'v) jsmap \<Rightarrow> 'k list" where
  "Map_keys m = map fst m"

section \<open>The store registry\<close>

record StoreConfig =
  domain :: string
  accessToken :: string
  apiVersion :: "string option"

text \<open>\<open>StoreInfo\<close> has the fields \<open>alias\<close> and \<open>domain\<close>, written \<open>info_alias\<close>
  and \<open>info_domain\<close> here: \<open>alias\<close> is a keyword of Isabelle, and \<open>domain\<close> is the
  field of \<open>StoreConfig\<close>.\<close>

record StoreInfo =
  info_alias :: string
  info_domain :: string

text \<open>
  A \<open>GraphQLClient\<close> is an object: two clients built from the same arguments are still
  two instances. The field \<open>instance\<close> is the identity of the object, the number of
  clients constructed before it; \<open>endpoint\<close> and \<open>headers\<close> are the constructor's
  arguments.
\<close>

record GraphQLClient =
  "instance" :: nat
  endpoint :: string
  headers :: "(string \<times> string) list"

definition DEFAULT_API_VERSION :: string where
  "DEFAULT_API_VERSION = ''2024-01''"

text \<open>The fields of the class, and \<open>allocated\<close>: the number of \<open>GraphQLClient\<close>
  objects constructed so far, from which \<open>new GraphQLClient\<close> takes the next identity.\<close>

record StoreRegistry =
  stores :: "(string, StoreConfig) jsmap"
  clients :: "(string, GraphQLClient) jsmap"
  defaultStoreAlias :: "string option"
  allocated :: nat

definition newStoreRegistry :: StoreRegistry where
  "newStoreRegistry = \<lparr>stores = [], clients = [], defaultStoreAlias = None, allocated = 0\<rparr>"

text \<open>
  Every \<open>throw new Error(...)\<close> of the registry and of the configuration loader is a
  constructor, one for each place that throws, carrying the values its message
  interpolates; \<open>message\<close> builds the text of the error.
\<close>

record issue =
  path :: "string list"
  issue_message :: string

datatype error =
    SetDefaultNotFound string "string list"
  | AliasNotFound "string option" "string list"
  | NoDefaultStore "string list"
  | ConfigMissing "string option" "string list"
  | ConfigFileNotFound string
  | ConfigFileUnreadable string
  | InvalidJSON string string
  | InvalidStructure string "issue list"
  | NoStoresDefined string
  | BothArgsRequired
  | NoConfiguration

fun message :: "error \<Rightarrow> string" where
  "message (SetDefaultNotFound a xs) =
     ''Cannot set default: store \"'' @ a @ ''\" not found. Available stores: '' @ join '', '' xs"
| "message (AliasNotFound a xs) =
     ''Store \"'' @ render a @ ''\" not found. Available stores: '' @ join '', '' xs"
| "message (ConfigMissing a xs) =
     ''Store \"'' @ render a @ ''\" not found. Available stores: '' @ join '', '' xs"
| "message (NoDefaultStore xs) =
     ''No store specified and no default store set. Available stores: '' @ join '', '' xs
       @ ''. Please specify a storeAlias parameter or configure a defaultStore.''"
| "message (ConfigFileNotFound p) = ''Config file not found: '' @ p"
| "message (ConfigFileUnreadable p) = ''Failed to read config file: '' @ p"
| "message (InvalidJSON src m) = ''Invalid JSON in '' @ src @ '': '' @ m"
| "message (InvalidStructure src is) =
     ''Invalid config structure in '' @ src @ '':'' @ [CHR 0x0A]
       @ join [CHR 0x0A] (map (\<lambda>e. ''  - '' @ join ''.'' (path e) @ '': '' @ issue_message e) is)"
| "message (NoStoresDefined src) = ''No stores defined in '' @ src"
| "message BothArgsRequired =
     ''Both --accessToken and --domain are required when using CLI arguments.''"
| "message NoConfiguration =
     ''No Shopify store configuration found. Please provide one of:'' @ [CHR 0x0A]
       @ ''  1. A config file via --config <path>'' @ [CHR 0x0A]
       @ ''  2. SHOPIFY_STORES_CONFIG environment variable (JSON or file path)'' @ [CHR 0x0A]
       @ ''  3. SHOPIFY_ACCESS_TOKEN and MYSHOPIFY_DOMAIN environment variables'' @ [CHR 0x0A]
       @ ''  4. --accessToken and --domain CLI arguments''"

definition listAliases :: "StoreRegistry \<Rightarrow> string list" where
  "listAliases r = Map_keys (stores r)"

definition listStores :: "StoreRegistry \<Rightarrow> StoreInfo list" where
  "listStores r = map (\<lambda>(a, config). \<lparr>info_alias = a, info_domain = domain config\<rparr>) (stores r)"

definition size_registry :: "StoreRegistry \<Rightarrow> nat" where
  "size_registry r = length (stores r)"

definition register :: "(string \<Rightarrow> string) \<Rightarrow> string \<Rightarrow> StoreConfig \<Rightarrow> StoreRegistry \<Rightarrow> StoreRegistry" where
  "register toLowerCase a config r =
     (let normalizedAlias = toLowerCase a in
      r\<lparr>stores := Map_set normalizedAlias
                    (config\<lparr>apiVersion := Some (or_else (apiVersion config) DEFAULT_API_VERSION)\<rparr>)
                    (stores r),
        clients := Map_delete normalizedAlias (clients r)\<rparr>)"

definition setDefault :: "(string \<Rightarrow> string) \<Rightarrow> string \<Rightarrow> StoreRegistry \<Rightarrow> error + StoreRegistry" where
  "setDefault toLowerCase a r =
     (let normalizedAlias = toLowerCase a in
      if \<not> Map_has (stores r) normalizedAlias
      then Inl (SetDefaultNotFound a (listAliases r))
      else Inr (r\<lparr>defaultStoreAlias := Some normalizedAlias\<rparr>))"

definition hasStore :: "(string \<Rightarrow> string) \<Rightarrow> string \<Rightarrow> StoreRegistry \<Rightarrow> bool" where
  "hasStore toLowerCase a r = Map_has (stores r) (toLowerCase a)"

text \<open>\<open>Array.from(this.stores.keys())[0]\<close> is \<open>undefined\<close> on an empty array.\<close>

definition getDefaultAlias :: "StoreRegistry \<Rightarrow> string option" where
  "getDefaultAlias r =
     (if truthy (defaultStoreAlias r) then defaultStoreAlias r
      else if length (stores r) = 1
      then (case Map_keys (stores r) of [] \<Rightarrow> None | k # _ \<Rightarrow> Some k)
      else None)"

definition resolveAlias :: "(string \<Rightarrow> string) \<Rightarrow> string option \<Rightarrow> StoreRegistry \<Rightarrow> error + string" where
  "resolveAlias toLowerCase a r =
     (if truthy a
      then (let normalizedAlias = toLowerCase (the a) in
            if \<not> Map_has (stores r) normalizedAlias
            then Inl (AliasNotFound a (listAliases r))
            else Inr normalizedAlias)
      else (let defaultAlias = getDefaultAlias r in
            if \<not> truthy defaultAlias
            then Inl (NoDefaultStore (listAliases r))
            else Inr (the defaultAlias)))"

definition newGraphQLClient :: "nat \<Rightarrow> StoreConfig \<Rightarrow> GraphQLClient" where
  "newGraphQLClient n config =
     \<lparr>instance = n,
      endpoint = ''https://'' @ domain config @ ''/admin/api/'' @ render (apiVersion config)
                   @ ''/graphql.json'',
      headers = [(''X-Shopify-Access-Token'', accessToken config),
                 (''Content-Type'', ''application/json'')]\<rparr>"

definition getClient ::
  "(string \<Rightarrow> string) \<Rightarrow> string option \<Rightarrow> StoreRegistry \<Rightarrow> error + (GraphQLClient \<times> StoreRegistry)" where
  "getClient toLowerCase a r =
     (case resolveAlias toLowerCase a r of
        Inl e \<Rightarrow> Inl e
      | Inr resolvedAlias \<Rightarrow>
          (let normalizedAlias = toLowerCase resolvedAlias in
           case Map_get (clients r) normalizedAlias of
             Some cachedClient \<Rightarrow> Inr (cachedClient, r)
           | None \<Rightarrow>
               (case Map_get (stores r) normalizedAlias of
                  None \<Rightarrow> Inl (ConfigMissing a (listAliases r))
                | Some config \<Rightarrow>
                    (let client = newGraphQLClient (allocated r) config in
                     Inr (client,
                          r\<lparr>clients := Map_set normalizedAlias client (clients r),
                            allocated := Suc (allocated r)\<rparr>)))))"

definition getStoreInfo :: "(string \<Rightarrow> string) \<Rightarrow> string option \<Rightarrow> StoreRegistry \<Rightarrow> error + StoreInfo" where
  "getStoreInfo toLowerCase a r =
     (case resolveAlias toLowerCase a r of
        Inl e \<Rightarrow> Inl e
      | Inr resolvedAlias \<Rightarrow>
          (let normalizedAlias = toLowerCase resolvedAlias in
           case Map_get (stores r) normalizedAlias of
             None \<Rightarrow> Inl (ConfigMissing a (listAliases r))
           | Some config \<Rightarrow> Inr \<lparr>info_alias = resolvedAlias, info_domain = domain config\<rparr>))"

text \<open>
  A sequence of calls on one registry. A call that throws leaves the registry as it was:
  \<open>setDefault\<close> and \<open>getClient\<close> throw before they write. The remaining methods only
  read.
\<close>

datatype call =
    Register string StoreConfig
  | SetDefault string
  | GetClient "string option"
  | GetStoreInfo "string option"
  | HasStore string
  | GetDefaultAlias
  | ListAliases
  | ListStores
  | Size

fun step :: "(string \<Rightarrow> string) \<Rightarrow> call \<Rightarrow> StoreRegistry \<Rightarrow> StoreRegistry" where
  "step toLowerCase (Register a config) r = register toLowerCase a config r"
| "step toLowerCase (SetDefault a) r = (case setDefault toLowerCase a r of Inl _ \<Rightarrow> r | Inr r' \<Rightarrow> r')"
| "step toLowerCase (GetClient a) r = (case getClient toLowerCase a r of Inl _ \<Rightarrow> r | Inr (_, r') \<Rightarrow> r')"
| "step toLowerCase _ r = r"

definition run :: "(string \<Rightarrow> string) \<Rightarrow> call list \<Rightarrow> StoreRegistry \<Rightarrow> StoreRegistry" where
  "run toLowerCase cs r = fold (step toLowerCase) cs r"

text \<open>Whether a call is a \<open>register\<close> that stores under the key \<open>k\<close>.\<close>

fun registers :: "(string \<Rightarrow> string) \<Rightarrow> string \<Rightarrow> call \<Rightarrow> bool" where
  "registers toLowerCase k (Register a config) = (toLowerCase a = k)"
| "registers toLowerCase k _ = False"

section \<open>The configuration loader\<close>

subsection \<open>What the loader reads\<close>

text \<open>
  The loader reads three environment variables and the file system, and calls
  \<open>path.resolve\<close> and \<open>JSON.parse\<close>. They are the fields of \<open>Env\<close>. An entry of the
  file system is a file with its content, or something that \<open>existsSync\<close> sees and
  \<open>readFileSync\<close> cannot read. \<open>JSON_parse\<close> gives the parsed value, or the message of
  the \<open>SyntaxError\<close> it throws; in an object it gives the properties in the order of
  \<open>Object.entries\<close>, each name once. The payload of a number plays no part in the schema.
\<close>

datatype json =
    JNull
  | JBool bool
  | JNumber int
  | JString string
  | JArray "json list"
  | JObject "(string \<times> json) list"

datatype fsentry = File string | Unreadable

record Env =
  SHOPIFY_STORES_CONFIG :: "string option"
  SHOPIFY_ACCESS_TOKEN :: "string option"
  MYSHOPIFY_DOMAIN :: "string option"
  files :: "string \<Rightarrow> fsentry option"
  path_resolve :: "string \<Rightarrow> string"
  JSON_parse :: "string \<Rightarrow> string + json"

text \<open>\<open>LoadConfigOptions\<close> has the fields \<open>configPath\<close>, \<open>accessToken\<close> and \<open>domain\<close>; the
  last two are written \<open>cli_accessToken\<close> and \<open>cli_domain\<close> here.\<close>

record LoadConfigOptions =
  configPath :: "string option"
  cli_accessToken :: "string option"
  cli_domain :: "string option"

definition startsWith :: "string \<Rightarrow> string \<Rightarrow> bool" where
  "startsWith s p = (take (length p) s = p)"

definition endsWith :: "string \<Rightarrow> string \<Rightarrow> bool" where
  "endsWith s p = (length p \<le> length s \<and> drop (length s - length p) s = p)"

subsection \<open>The schemas\<close>

text \<open>
  \<open>StoreConfigSchema\<close> and \<open>ConfigFileSchema\<close>, with the meaning zod gives them: an
  object schema reports every issue of every property, in the order of the schema; a
  missing property is reported as \<open>Required\<close>, a value of another type by naming both
  types; properties that the schema does not name are dropped from the result.
\<close>

fun parsedType :: "json \<Rightarrow> string" where
  "parsedType JNull = ''null''"
| "parsedType (JBool _) = ''boolean''"
| "parsedType (JNumber _) = ''number''"
| "parsedType (JString _) = ''string''"
| "parsedType (JArray _) = ''array''"
| "parsedType (JObject _) = ''object''"

definition invalid_type :: "string list \<Rightarrow> string \<Rightarrow> json \<Rightarrow> issue" where
  "invalid_type p expected v =
     \<lparr>path = p, issue_message = ''Expected '' @ expected @ '', received '' @ parsedType v\<rparr>"

text \<open>\<open>z.string().min(1, msg)\<close> at path \<open>p\<close>.\<close>

fun string_min1 :: "string list \<Rightarrow> string \<Rightarrow> json option \<Rightarrow> issue list" where
  "string_min1 p msg None = [\<lparr>path = p, issue_message = ''Required''\<rparr>]"
| "string_min1 p msg (Some (JString s)) =
     (if length s < 1 then [\<lparr>path = p, issue_message = msg\<rparr>] else [])"
| "string_min1 p msg (Some v) = [invalid_type p ''string'' v]"

text \<open>\<open>z.string().optional()\<close> at path \<open>p\<close>.\<close>

fun string_optional :: "string list \<Rightarrow> json option \<Rightarrow> issue list" where
  "string_optional p None = []"
| "string_optional p (Some (JString s)) = []"
| "string_optional p (Some v) = [invalid_type p ''string'' v]"

fun as_string :: "json option \<Rightarrow> string option" where
  "as_string (Some (JString s)) = Some s"
| "as_string _ = None"

fun StoreConfigSchema :: "string list \<Rightarrow> json \<Rightarrow> issue list + StoreConfig" where
  "StoreConfigSchema p (JObject fs) =
     (let issues = string_min1 (p @ [''domain'']) ''Domain is required'' (Map_get fs ''domain'')
                 @ string_min1 (p @ [''accessToken'']) ''Access token is required''
                     (Map_get fs ''accessToken'')
                 @ string_optional (p @ [''apiVersion'']) (Map_get fs ''apiVersion'')
      in if issues \<noteq> [] then Inl issues
         else Inr \<lparr>domain = the (as_string (Map_get fs ''domain'')),
                   accessToken = the (as_string (Map_get fs ''accessToken'')),
                   apiVersion = as_string (Map_get fs ''apiVersion'')\<rparr>)"
| "StoreConfigSchema p v = Inl [invalid_type p ''object'' v]"

text \<open>\<open>z.record(z.string(), StoreConfigSchema)\<close> on the entries of an object at path \<open>p\<close>:
  the issues of all entries, or the entries with their parsed values. zod checks the
  value of every entry and leaves the entry with the key \<open>__proto__\<close> out of the result.\<close>

fun record_of_StoreConfig ::
  "string list \<Rightarrow> (string \<times> json) list \<Rightarrow> issue list + (string \<times> StoreConfig) list" where
  "record_of_StoreConfig p [] = Inr []"
| "record_of_StoreConfig p ((k, v) # es) =
     (case (StoreConfigSchema (p @ [k]) v, record_of_StoreConfig p es) of
        (Inl is, Inl js) \<Rightarrow> Inl (is @ js)
      | (Inl is, Inr _) \<Rightarrow> Inl is
      | (Inr _, Inl js) \<Rightarrow> Inl js
      | (Inr c, Inr cs) \<Rightarrow> Inr (if k = ''__proto__'' then cs else (k, c) # cs))"

text \<open>\<open>ConfigFile\<close> has the fields \<open>stores\<close> and \<open>defaultStore\<close>; the first is written
  \<open>config_stores\<close> here, \<open>stores\<close> being the field of the registry.\<close>

record ConfigFile =
  config_stores :: "(string \<times> StoreConfig) list"
  defaultStore :: "string option"

fun ConfigFileSchema_safeParse :: "json \<Rightarrow> issue list + ConfigFile" where
  "ConfigFileSchema_safeParse (JObject fs) =
     (let parsed_stores =
            (case Map_get fs ''stores'' of
               None \<Rightarrow> Inl [\<lparr>path = [''stores''], issue_message = ''Required''\<rparr>]
             | Some (JObject es) \<Rightarrow> record_of_StoreConfig [''stores''] es
             | Some v \<Rightarrow> Inl [invalid_type [''stores''] ''object'' v]);
          default_issues = string_optional [''defaultStore''] (Map_get fs ''defaultStore'')
      in case parsed_stores of
           Inl is \<Rightarrow> Inl (is @ default_issues)
         | Inr ss \<Rightarrow>
             if default_issues \<noteq> [] then Inl default_issues
             else Inr \<lparr>config_stores = ss,
                       defaultStore = as_string (Map_get fs ''defaultStore'')\<rparr>)"
| "ConfigFileSchema_safeParse v = Inl [invalid_type [] ''object'' v]"

subsection \<open>Loading\<close>

text \<open>
  A loader function returns nothing and writes to the registry it is given; when it
  throws, what it has written so far stays. Its result here is the registry at the end
  (\<open>Inr\<close>), or the error with the registry as it is when the error is thrown (\<open>Inl\<close>).
\<close>

type_synonym loaded = "(error \<times> StoreRegistry) + StoreRegistry"

definition parseAndRegisterConfig ::
  "(string \<Rightarrow> string) \<Rightarrow> Env \<Rightarrow> StoreRegistry \<Rightarrow> string \<Rightarrow> string \<Rightarrow> loaded" where
  "parseAndRegisterConfig toLowerCase env registry jsonString source =
     (case JSON_parse env jsonString of
        Inl err \<Rightarrow> Inl (InvalidJSON source err, registry)
      | Inr parsed \<Rightarrow>
          (case ConfigFileSchema_safeParse parsed of
             Inl errors \<Rightarrow> Inl (InvalidStructure source errors, registry)
           | Inr config \<Rightarrow>
               (let r1 = fold (\<lambda>(a, storeConfig). register toLowerCase a storeConfig)
                              (config_stores config) registry
                in case (if truthy (defaultStore config)
                         then setDefault toLowerCase (the (defaultStore config)) r1 else Inr r1) of
                     Inl e \<Rightarrow> Inl (e, r1)
                   | Inr r2 \<Rightarrow>
                       if size_registry r2 = 0 then Inl (NoStoresDefined source, r2)
                       else Inr r2)))"

definition loadFromConfigFile :: "(string \<Rightarrow> string) \<Rightarrow> Env \<Rightarrow> StoreRegistry \<Rightarrow> string \<Rightarrow> loaded" where
  "loadFromConfigFile toLowerCase env registry cfgPath =
     (let absolutePath = path_resolve env cfgPath in
      case files env absolutePath of
        None \<Rightarrow> Inl (ConfigFileNotFound absolutePath, registry)
      | Some Unreadable \<Rightarrow> Inl (ConfigFileUnreadable absolutePath, registry)
      | Some (File fileContent) \<Rightarrow>
          parseAndRegisterConfig toLowerCase env registry fileContent (''config file: '' @ absolutePath))"

definition loadFromStoresConfigEnv :: "(string \<Rightarrow> string) \<Rightarrow> Env \<Rightarrow> StoreRegistry \<Rightarrow> string \<Rightarrow> loaded" where
  "loadFromStoresConfigEnv toLowerCase env registry envValue =
     (if (endsWith envValue ''.json'' \<or> startsWith envValue ''/'' \<or> startsWith envValue ''./'')
         \<and> files env (path_resolve env envValue) \<noteq> None
      then loadFromConfigFile toLowerCase env registry (path_resolve env envValue)
      else parseAndRegisterConfig toLowerCase env registry envValue ''SHOPIFY_STORES_CONFIG env var'')"

text \<open>The two places of \<open>loadConfig\<close> that register the single store \<open>default\<close>.\<close>

definition registerDefaultStore :: "(string \<Rightarrow> string) \<Rightarrow> StoreRegistry \<Rightarrow> string \<Rightarrow> string \<Rightarrow> loaded" where
  "registerDefaultStore toLowerCase registry d t =
     (let r1 = register toLowerCase ''default'' \<lparr>domain = d, accessToken = t, apiVersion = None\<rparr> registry
      in case setDefault toLowerCase ''default'' r1 of Inl e \<Rightarrow> Inl (e, r1) | Inr r2 \<Rightarrow> Inr r2)"

definition loadConfig :: "(string \<Rightarrow> string) \<Rightarrow> Env \<Rightarrow> StoreRegistry \<Rightarrow> LoadConfigOptions \<Rightarrow> loaded" where
  "loadConfig toLowerCase env registry options =
     (if truthy (configPath options)
      then loadFromConfigFile toLowerCase env registry (the (configPath options))
      else
        let storesConfigEnv = SHOPIFY_STORES_CONFIG env in
        if truthy storesConfigEnv \<and> storesConfigEnv \<noteq> Some ''undefined''
        then loadFromStoresConfigEnv toLowerCase env registry (the storesConfigEnv)
        else
          let envAccessToken = SHOPIFY_ACCESS_TOKEN env;
              envDomain = MYSHOPIFY_DOMAIN env;
              hasEnvConfig = (truthy envAccessToken \<and> envAccessToken \<noteq> Some ''undefined''
                              \<and> truthy envDomain \<and> envDomain \<noteq> Some ''undefined'')
          in
          if hasEnvConfig
          then registerDefaultStore toLowerCase registry (the envDomain) (the envAccessToken)
          else if truthy (cli_accessToken options) \<and> truthy (cli_domain options)
          then registerDefaultStore toLowerCase registry (the (cli_domain options))
                 (the (cli_accessToken options))
          else if truthy (cli_accessToken options) \<or> truthy (cli_domain options)
          then Inl (BothArgsRequired, registry)
          else Inl (NoConfiguration, registry))"

text \<open>The loop of \<open>parseConfigArgs\<close> from position \<open>i\<close> on: the arguments still to read
  and the options found so far. After the last argument \<open>nextArg\<close> is \<open>undefined\<close>.\<close>

fun parseConfigArgs_from :: "string list \<Rightarrow> LoadConfigOptions \<Rightarrow> LoadConfigOptions" where
  "parseConfigArgs_from [] options = options"
| "parseConfigArgs_from [arg] options = options"
| "parseConfigArgs_from (arg # nextArg # rest) options =
     (if arg = ''--config'' \<and> nextArg \<noteq> []
      then parseConfigArgs_from rest (options\<lparr>configPath := Some nextArg\<rparr>)
      else if arg = ''--accessToken'' \<and> nextArg \<noteq> []
      then parseConfigArgs_from rest (options\<lparr>cli_accessToken := Some nextArg\<rparr>)
      else if arg = ''--domain'' \<and> nextArg \<noteq> []
      then parseConfigArgs_from rest (options\<lparr>cli_domain := Some nextArg\<rparr>)
      else parseConfigArgs_from (nextArg # rest) options)"

definition parseConfigArgs :: "string list \<Rightarrow> LoadConfigOptions" where
  "parseConfigArgs args =
     parseConfigArgs_from args \<lparr>configPath = None, cli_accessToken = None, cli_domain = None\<rparr>"

text \<open>The registry after a load, whether it returned or threw.\<close>

fun registry_after :: "loaded \<Rightarrow> StoreRegistry" where
  "registry_after (Inl (e, r)) = r"
| "registry_after (Inr r) = r"

section \<open>Well-formed registries\<close>

text \<open>
  What every registry built by calls from the empty one satisfies, for a \<open>toLowerCase\<close>
  that is a lowercasing: the aliases of
  \<open>stores\<close> are distinct and in lower case, every alias of \<open>clients\<close> is an alias of
  \<open>stores\<close> and is not empty, the default alias is an alias of \<open>stores\<close>, and every
  cached client was constructed before now.
\<close>

definition wf :: "(string \<Rightarrow> string) \<Rightarrow> StoreRegistry \<Rightarrow> bool" where
  "wf toLowerCase r \<longleftrightarrow>
     lowercasing toLowerCase \<and>
     distinct (Map_keys (stores r)) \<and>
     (\<forall>k \<in> set (Map_keys (stores r)). toLowerCase k = k) \<and>
     set (Map_keys (clients r)) \<subseteq> set (Map_keys (stores r)) \<and>
     [] \<notin> set (Map_keys (clients r)) \<and>
     (\<forall>d. defaultStoreAlias r = Some d \<longrightarrow> d \<in> set (Map_keys (stores r))) \<and>
     (\<forall>k c. (k, c) \<in> set (clients r) \<longrightarrow> instance c < allocated r)"


text \<open>Every cached client was constructed from the entry that \<open>stores\<close> now holds for
  its alias.\<close>

definition cache_current :: "StoreRegistry \<Rightarrow> bool" where
  "cache_current r \<longleftrightarrow>
     (\<forall>k c. Map_get (clients r) k = Some c \<longrightarrow>
        (\<exists>config. Map_get (stores r) k = Some config \<and> c = newGraphQLClient (instance c) config))"

section \<open>Properties of strings and maps\<close>

lemma lowercasing_idem: "lowercasing toLowerCase \<Longrightarrow> toLowerCase (toLowerCase s) = toLowerCase s"
  by (simp add: lowercasing_def)

lemma lowercasing_Nil_iff: "lowercasing toLowerCase \<Longrightarrow> toLowerCase s = [] \<longleftrightarrow> s = []"
  by (simp add: lowercasing_def)

lemma lower_char_idem: "lower_char (lower_char c) = lower_char c"
  by (simp add: lower_char_def Let_def)

lemma lowercasing_ascii: "lowercasing toLowerCase_ascii"
  by (simp add: lowercasing_def toLowerCase_ascii_def lower_char_idem)

lemmas lower_eval = toLowerCase_ascii_def lower_char_def char_of_def bit_Suc_0_iff

lemma Map_get_set: "Map_get (Map_set k v m) k' = (if k' = k then Some v else Map_get m k')"
  by (induction m) auto

lemma Map_get_delete: "Map_get (Map_delete k m) k' = (if k' = k then None else Map_get m k')"
  by (induction m) auto

lemma Map_get_None_iff: "Map_get m k = None \<longleftrightarrow> k \<notin> set (Map_keys m)"
  by (induction m) (auto simp: Map_keys_def split: if_splits)

lemma Map_has_iff: "Map_has m k \<longleftrightarrow> k \<in> set (Map_keys m)"
  by (simp add: Map_has_def Map_get_None_iff)

lemma Map_keys_set:
  "Map_keys (Map_set k v m) = (if k \<in> set (Map_keys m) then Map_keys m else Map_keys m @ [k])"
  by (induction m) (auto simp: Map_keys_def split: if_splits)

lemma Map_keys_delete: "Map_keys (Map_delete k m) = removeAll k (Map_keys m)"
  by (induction m) (auto simp: Map_keys_def)

lemma set_Map_set_subset: "set (Map_set k v m) \<subseteq> insert (k, v) (set m)"
  by (induction m) (auto split: if_splits)

lemma set_Map_delete_subset: "set (Map_delete k m) \<subseteq> set m"
  by (induction m) (auto split: if_splits)

section \<open>The invariant of the registry\<close>

lemma wf_lowercasing: "wf toLowerCase r \<Longrightarrow> lowercasing toLowerCase"
  by (simp add: wf_def)

lemma wf_new: "lowercasing toLowerCase \<Longrightarrow> wf toLowerCase newStoreRegistry"
  by (simp add: wf_def newStoreRegistry_def Map_keys_def)

lemma wf_register: "wf toLowerCase r \<Longrightarrow> wf toLowerCase (register toLowerCase a config r)"
  unfolding wf_def register_def Let_def
  using set_Map_delete_subset [of "toLowerCase a" "clients r"]
  by (auto simp: Map_keys_set Map_keys_delete lowercasing_idem)

lemma wf_setDefault: "wf toLowerCase r \<Longrightarrow> setDefault toLowerCase a r = Inr r' \<Longrightarrow> wf toLowerCase r'"
  by (auto simp: wf_def setDefault_def Let_def Map_has_iff split: if_splits)




lemma getDefaultAlias_in:
  assumes "wf toLowerCase r" "getDefaultAlias r = Some d"
  shows "d \<in> set (Map_keys (stores r))"
proof (cases "truthy (defaultStoreAlias r)")
  case True
  with assms(2) have "defaultStoreAlias r = Some d" by (simp add: getDefaultAlias_def)
  with assms(1) show ?thesis by (simp add: wf_def)
next
  case False
  with assms(2) show ?thesis
    by (cases "Map_keys (stores r)") (auto simp: getDefaultAlias_def split: if_splits)
qed


lemma resolveAlias_Some:
  "truthy a \<Longrightarrow> resolveAlias toLowerCase a r =
     (if Map_has (stores r) (toLowerCase (the a)) then Inr (toLowerCase (the a))
      else Inl (AliasNotFound a (listAliases r)))"
  by (simp add: resolveAlias_def Let_def)

lemma resolveAlias_None:
  "\<not> truthy a \<Longrightarrow> resolveAlias toLowerCase a r =
     (if truthy (getDefaultAlias r) then Inr (the (getDefaultAlias r))
      else Inl (NoDefaultStore (listAliases r)))"
  by (simp add: resolveAlias_def Let_def)

lemma truthy_iff: "truthy a \<longleftrightarrow> (\<exists>s. a = Some s \<and> s \<noteq> [])"
  by (cases a) simp_all

lemma resolveAlias_in:
  assumes "wf toLowerCase r" "resolveAlias toLowerCase a r = Inr x"
  shows "x \<in> set (Map_keys (stores r))" "toLowerCase x = x" "x \<noteq> []"
proof -
  have "x \<in> set (Map_keys (stores r)) \<and> x \<noteq> []"
  proof (cases "truthy a")
    case True
    then obtain s where s: "a = Some s" "s \<noteq> []" by (auto simp: truthy_iff)
    from assms(2) True have "Map_has (stores r) (toLowerCase (the a))" "x = toLowerCase (the a)"
      by (simp_all add: resolveAlias_Some split: if_splits)
    with s wf_lowercasing [OF assms(1)] show ?thesis
      by (simp add: Map_has_iff lowercasing_Nil_iff)
  next
    case False
    with assms(2) have t: "truthy (getDefaultAlias r)" and x: "x = the (getDefaultAlias r)"
      by (simp_all add: resolveAlias_None split: if_splits)
    from t obtain s where s: "getDefaultAlias r = Some s" "s \<noteq> []" by (auto simp: truthy_iff)
    from getDefaultAlias_in [OF assms(1) s(1)] s x show ?thesis by simp
  qed
  then show "x \<in> set (Map_keys (stores r))" "x \<noteq> []" by simp_all
  with assms(1) show "toLowerCase x = x" by (simp add: wf_def)
qed


lemma getClient_Inl: "resolveAlias toLowerCase a r = Inl e \<Longrightarrow> getClient toLowerCase a r = Inl e"
  by (simp add: getClient_def)

lemma getClient_cached:
  "resolveAlias toLowerCase a r = Inr k \<Longrightarrow> Map_get (clients r) (toLowerCase k) = Some c
   \<Longrightarrow> getClient toLowerCase a r = Inr (c, r)"
  by (simp add: getClient_def)

lemma getClient_fresh:
  "resolveAlias toLowerCase a r = Inr k \<Longrightarrow> Map_get (clients r) (toLowerCase k) = None
   \<Longrightarrow> Map_get (stores r) (toLowerCase k) = Some config
   \<Longrightarrow> getClient toLowerCase a r =
       Inr (newGraphQLClient (allocated r) config,
            r\<lparr>clients := Map_set (toLowerCase k) (newGraphQLClient (allocated r) config) (clients r),
              allocated := Suc (allocated r)\<rparr>)"
  by (simp add: getClient_def Let_def)

lemma getClient_missing:
  "resolveAlias toLowerCase a r = Inr k \<Longrightarrow> Map_get (clients r) (toLowerCase k) = None
   \<Longrightarrow> Map_get (stores r) (toLowerCase k) = None
   \<Longrightarrow> getClient toLowerCase a r = Inl (ConfigMissing a (listAliases r))"
  by (simp add: getClient_def Let_def)

lemma getClient_cases:
  assumes "getClient toLowerCase a r = Inr (c, r')"
  obtains k where "resolveAlias toLowerCase a r = Inr k" "Map_get (clients r) (toLowerCase k) = Some c" "r' = r"
  | k config where "resolveAlias toLowerCase a r = Inr k" "Map_get (clients r) (toLowerCase k) = None"
      "Map_get (stores r) (toLowerCase k) = Some config"
      "c = newGraphQLClient (allocated r) config"
      "r' = r\<lparr>clients := Map_set (toLowerCase k) c (clients r), allocated := Suc (allocated r)\<rparr>"
proof (cases "resolveAlias toLowerCase a r")
  case (Inl e)
  from getClient_Inl [OF Inl] assms show ?thesis by simp
next
  case (Inr k)
  show ?thesis
  proof (cases "Map_get (clients r) (toLowerCase k)")
    case (Some c')
    from getClient_cached [OF Inr Some] assms have "c' = c" "r' = r" by simp_all
    with Some show ?thesis by (intro that(1) [OF Inr]) simp_all
  next
    case None
    show ?thesis
    proof (cases "Map_get (stores r) (toLowerCase k)")
      case N: None
      from getClient_missing [OF Inr None N] assms show ?thesis by simp
    next
      case (Some config)
      from getClient_fresh [OF Inr None Some] assms
      have "c = newGraphQLClient (allocated r) config"
        "r' = r\<lparr>clients := Map_set (toLowerCase k) c (clients r), allocated := Suc (allocated r)\<rparr>"
        by simp_all
      then show ?thesis by (rule that(2) [OF Inr None Some])
    qed
  qed
qed

lemma wf_getClient:
  assumes "wf toLowerCase r" "getClient toLowerCase a r = Inr (c, r')"
  shows "wf toLowerCase r'"
  using assms(2)
proof (cases rule: getClient_cases)
  case (1 k)
  with assms(1) show ?thesis by simp
next
  case (2 k config)
  from resolveAlias_in [OF assms(1) 2(1)]
  have k: "k \<in> set (Map_keys (stores r))" "toLowerCase k = k" "k \<noteq> []" .
  have c: "instance c = allocated r" using 2(4) by (simp add: newGraphQLClient_def)
  have keys: "set (Map_keys (clients r')) \<subseteq> insert k (set (Map_keys (clients r)))"
    by (auto simp: 2(5) k(2) Map_keys_set)
  have inst: "instance c' < allocated r'" if "(k', c') \<in> set (clients r')" for k' c'
  proof -
    from that set_Map_set_subset [of k c "clients r"]
    have "(k', c') = (k, c) \<or> (k', c') \<in> set (clients r)"
      by (auto simp: 2(5) k(2))
    then show ?thesis using assms(1) c by (auto simp: wf_def 2(5) less_Suc_eq)
  qed
  have same: "stores r' = stores r" "defaultStoreAlias r' = defaultStoreAlias r"
    by (simp_all add: 2(5))
  from assms(1) keys k have "set (Map_keys (clients r')) \<subseteq> set (Map_keys (stores r))"
    "[] \<notin> set (Map_keys (clients r'))"
    by (auto simp: wf_def)
  with assms(1) inst show ?thesis
    unfolding wf_def same by blast
qed

lemma wf_step: "wf toLowerCase r \<Longrightarrow> wf toLowerCase (step toLowerCase c r)"
proof (cases c)
  case (Register a config)
  assume "wf toLowerCase r" with Register show ?thesis by (simp add: wf_register)
next
  case (SetDefault a)
  assume "wf toLowerCase r" with SetDefault show ?thesis
    by (cases "setDefault toLowerCase a r") (simp_all add: wf_setDefault)
next
  case (GetClient a)
  assume "wf toLowerCase r" with GetClient show ?thesis
    by (cases "getClient toLowerCase a r") (auto dest: wf_getClient)
qed simp_all

lemma wf_fold: "wf toLowerCase r \<Longrightarrow> wf toLowerCase (fold (step toLowerCase) cs r)"
  by (induction cs arbitrary: r) (simp_all add: wf_step)

lemma wf_run: "lowercasing toLowerCase \<Longrightarrow> wf toLowerCase (run toLowerCase cs newStoreRegistry)"
  by (simp add: run_def wf_fold wf_new)

section \<open>Looking up a resolved alias\<close>

lemma Map_get_in: "Map_get m k = Some v \<Longrightarrow> (k, v) \<in> set m"
  by (induction m) (auto split: if_splits)

lemma Map_get_Some_key: "Map_get m k = Some v \<Longrightarrow> k \<in> set (Map_keys m)"
  using Map_get_None_iff [of m k] by auto

lemma getStoreInfo_Inl: "resolveAlias toLowerCase a r = Inl e \<Longrightarrow> getStoreInfo toLowerCase a r = Inl e"
  by (simp add: getStoreInfo_def)

lemma getStoreInfo_found:
  "resolveAlias toLowerCase a r = Inr k \<Longrightarrow> Map_get (stores r) (toLowerCase k) = Some config
   \<Longrightarrow> getStoreInfo toLowerCase a r = Inr \<lparr>info_alias = k, info_domain = domain config\<rparr>"
  by (simp add: getStoreInfo_def)

lemma getStoreInfo_missing:
  "resolveAlias toLowerCase a r = Inr k \<Longrightarrow> Map_get (stores r) (toLowerCase k) = None
   \<Longrightarrow> getStoreInfo toLowerCase a r = Inl (ConfigMissing a (listAliases r))"
  by (simp add: getStoreInfo_def)

lemma resolveAlias_no_ConfigMissing: "resolveAlias toLowerCase a r \<noteq> Inl (ConfigMissing a' xs)"
  by (simp add: resolveAlias_def Let_def)

lemma resolved_stored:
  assumes "wf toLowerCase r" "resolveAlias toLowerCase a r = Inr k"
  obtains config where "Map_get (stores r) (toLowerCase k) = Some config"
proof -
  from resolveAlias_in [OF assms] have "toLowerCase k \<in> set (Map_keys (stores r))" by simp
  then have "Map_get (stores r) (toLowerCase k) \<noteq> None" by (simp add: Map_get_None_iff)
  then show ?thesis using that by blast
qed

lemma getClient_succeeds:
  assumes "wf toLowerCase r" "resolveAlias toLowerCase a r = Inr k"
  shows "\<exists>c r'. getClient toLowerCase a r = Inr (c, r')"
proof -
  from assms obtain config where s: "Map_get (stores r) (toLowerCase k) = Some config"
    by (rule resolved_stored)
  show ?thesis
  proof (cases "Map_get (clients r) (toLowerCase k)")
    case None
    from getClient_fresh [OF assms(2) None s] show ?thesis by blast
  next
    case (Some c)
    from getClient_cached [OF assms(2) Some] show ?thesis by blast
  qed
qed

lemma getStoreInfo_succeeds:
  assumes "wf toLowerCase r" "resolveAlias toLowerCase a r = Inr k"
  shows "\<exists>i. getStoreInfo toLowerCase a r = Inr i"
proof -
  from assms obtain config where s: "Map_get (stores r) (toLowerCase k) = Some config"
    by (rule resolved_stored)
  from getStoreInfo_found [OF assms(2) s] show ?thesis by blast
qed

text \<open>The equations that evaluate the registry on given calls.\<close>

lemmas registry_eval =
  run_def register_def setDefault_def getClient_def getStoreInfo_def resolveAlias_def
  getDefaultAlias_def hasStore_def Map_has_def Map_keys_def listAliases_def size_registry_def
  newStoreRegistry_def newGraphQLClient_def DEFAULT_API_VERSION_def Let_def lower_eval

text \<open>
  \<^bold>\<open>C9.\<close> For every lowercasing \<open>toLowerCase\<close>: in every registry reached from the empty
  one by any sequence of calls,
  \<open>getClient\<close> and \<open>getStoreInfo\<close> never throw the \<open>Store not found\<close> error of the
  lookup that follows \<open>resolveAlias\<close>: whenever \<open>resolveAlias\<close> returns an alias, that
  alias is a key of \<open>stores\<close>, and both methods return.
\<close>

theorem lookup_after_resolveAlias_succeeds:
  assumes "lowercasing toLowerCase"
  shows "getClient toLowerCase a (run toLowerCase cs newStoreRegistry) \<noteq> Inl (ConfigMissing a' xs)
   \<and> getStoreInfo toLowerCase a (run toLowerCase cs newStoreRegistry) \<noteq> Inl (ConfigMissing a' xs)
   \<and> (\<forall>k. resolveAlias toLowerCase a (run toLowerCase cs newStoreRegistry) = Inr k \<longrightarrow>
          Map_get (stores (run toLowerCase cs newStoreRegistry)) (toLowerCase k) \<noteq> None
          \<and> (\<exists>c r'. getClient toLowerCase a (run toLowerCase cs newStoreRegistry) = Inr (c, r'))
          \<and> (\<exists>i. getStoreInfo toLowerCase a (run toLowerCase cs newStoreRegistry) = Inr i))"
proof -
  let ?r = "run toLowerCase cs newStoreRegistry"
  from assms have wfr: "wf toLowerCase ?r" by (rule wf_run)
  show ?thesis
  proof (cases "resolveAlias toLowerCase a ?r")
    case (Inl e)
    then have "e \<noteq> ConfigMissing a' xs" using resolveAlias_no_ConfigMissing [of toLowerCase a ?r a' xs] by auto
    with Inl show ?thesis by (simp add: getClient_Inl getStoreInfo_Inl)
  next
    case (Inr k)
    from wfr Inr obtain config where s: "Map_get (stores ?r) (toLowerCase k) = Some config"
      by (rule resolved_stored)
    from getClient_succeeds [OF wfr Inr] getStoreInfo_succeeds [OF wfr Inr] Inr s
    show ?thesis by auto
  qed
qed

theorem lookup_after_resolveAlias_succeeds_witness:
  "resolveAlias toLowerCase_ascii (Some ''ACME'')
     (run toLowerCase_ascii [Register ''Acme'' \<lparr>domain = ''acme.myshopify.com'', accessToken = ''shpat_xxx'',
                               apiVersion = None\<rparr>] newStoreRegistry) = Inr ''acme''
   \<and> Map_get (stores (run toLowerCase_ascii [Register ''Acme'' \<lparr>domain = ''acme.myshopify.com'',
                accessToken = ''shpat_xxx'', apiVersion = None\<rparr>] newStoreRegistry))
         (toLowerCase_ascii ''acme'') \<noteq> None"
  using lookup_after_resolveAlias_succeeds [OF lowercasing_ascii, of "Some ''ACME''"
      "[Register ''Acme'' \<lparr>domain = ''acme.myshopify.com'', accessToken = ''shpat_xxx'',
                           apiVersion = None\<rparr>]" None "[]"]
  by (simp add: registry_eval)

section \<open>The default alias\<close>

lemma getDefaultAlias_explicit:
  "defaultStoreAlias r = Some d \<Longrightarrow> d \<noteq> [] \<Longrightarrow> getDefaultAlias r = Some d"
  by (simp add: getDefaultAlias_def)

lemma getDefaultAlias_single:
  "\<not> truthy (defaultStoreAlias r) \<Longrightarrow> stores r = [(k, config)] \<Longrightarrow> getDefaultAlias r = Some k"
  by (simp add: getDefaultAlias_def Map_keys_def)

lemma getDefaultAlias_none:
  "\<not> truthy (defaultStoreAlias r) \<Longrightarrow> length (stores r) \<noteq> 1 \<Longrightarrow> getDefaultAlias r = None"
  by (simp add: getDefaultAlias_def)

lemma setDefault_Inr:
  "setDefault toLowerCase a r = Inr r' \<Longrightarrow> r' = r\<lparr>defaultStoreAlias := Some (toLowerCase a)\<rparr>"
  by (simp add: setDefault_def Let_def split: if_splits)

text \<open>
  \<^bold>\<open>C4\<close>, as amended. In every registry, \<open>getDefaultAlias\<close> returns the default alias
  that was set when it is not the empty string; after a \<open>setDefault\<close> of a non-empty
  alias that returns, it is that alias in lower case, for every lowercasing. When no default is set, or the
  empty string is, it returns the alias of the only store when exactly one is
  registered, and none otherwise. It never throws.
\<close>

theorem getDefaultAlias_resolution_order:
  "(\<forall>d. defaultStoreAlias r = Some d \<and> d \<noteq> [] \<longrightarrow> getDefaultAlias r = Some d)
   \<and> (\<forall>a r'. lowercasing toLowerCase \<and> setDefault toLowerCase a r = Inr r' \<and> a \<noteq> []
          \<longrightarrow> getDefaultAlias r' = Some (toLowerCase a))
   \<and> (defaultStoreAlias r = None \<or> defaultStoreAlias r = Some [] \<longrightarrow>
        (\<forall>k config. stores r = [(k, config)] \<longrightarrow> getDefaultAlias r = Some k)
        \<and> (size_registry r \<noteq> 1 \<longrightarrow> getDefaultAlias r = None))"
proof (intro conjI allI impI)
  fix d assume "defaultStoreAlias r = Some d \<and> d \<noteq> []"
  then show "getDefaultAlias r = Some d" by (simp add: getDefaultAlias_explicit)
next
  fix a r' assume "lowercasing toLowerCase \<and> setDefault toLowerCase a r = Inr r' \<and> a \<noteq> []"
  then have "defaultStoreAlias r' = Some (toLowerCase a)" "toLowerCase a \<noteq> []"
    by (auto dest: setDefault_Inr simp: lowercasing_Nil_iff)
  then show "getDefaultAlias r' = Some (toLowerCase a)" by (rule getDefaultAlias_explicit)
next
  fix k config
  assume "defaultStoreAlias r = None \<or> defaultStoreAlias r = Some []"
  then have "\<not> truthy (defaultStoreAlias r)" by auto
  moreover assume "stores r = [(k, config)]"
  ultimately show "getDefaultAlias r = Some k" by (rule getDefaultAlias_single)
next
  assume "defaultStoreAlias r = None \<or> defaultStoreAlias r = Some []"
  then have "\<not> truthy (defaultStoreAlias r)" by auto
  moreover assume "size_registry r \<noteq> 1"
  ultimately show "getDefaultAlias r = None"
    by (simp add: getDefaultAlias_none size_registry_def)
qed

theorem getDefaultAlias_resolution_order_witness:
  "defaultStoreAlias (run toLowerCase_ascii [Register ''acme'' \<lparr>domain = ''acme.myshopify.com'',
       accessToken = ''shpat_xxx'', apiVersion = None\<rparr>,
     Register ''beta'' \<lparr>domain = ''beta.myshopify.com'', accessToken = ''shpat_yyy'',
       apiVersion = None\<rparr>, SetDefault ''Beta''] newStoreRegistry) = Some ''beta''
   \<and> getDefaultAlias (run toLowerCase_ascii [Register ''acme'' \<lparr>domain = ''acme.myshopify.com'',
       accessToken = ''shpat_xxx'', apiVersion = None\<rparr>,
     Register ''beta'' \<lparr>domain = ''beta.myshopify.com'', accessToken = ''shpat_yyy'',
       apiVersion = None\<rparr>, SetDefault ''Beta''] newStoreRegistry) = Some ''beta''
   \<and> defaultStoreAlias newStoreRegistry = None
   \<and> size_registry newStoreRegistry \<noteq> 1
   \<and> getDefaultAlias newStoreRegistry = None"
  using getDefaultAlias_resolution_order [where toLowerCase = toLowerCase_ascii
      and r = "run toLowerCase_ascii [Register ''acme'' \<lparr>domain = ''acme.myshopify.com'',
       accessToken = ''shpat_xxx'', apiVersion = None\<rparr>,
     Register ''beta'' \<lparr>domain = ''beta.myshopify.com'', accessToken = ''shpat_yyy'',
       apiVersion = None\<rparr>, SetDefault ''Beta''] newStoreRegistry"]
    getDefaultAlias_resolution_order [where toLowerCase = toLowerCase_ascii
      and r = newStoreRegistry]
  by (simp add: registry_eval)

theorem getDefaultAlias_empty_default_counterexample:
  "defaultStoreAlias (run toLowerCase_ascii [Register '''' \<lparr>domain = ''a.myshopify.com'', accessToken = ''shpat_a'',
       apiVersion = None\<rparr>,
     Register ''b'' \<lparr>domain = ''b.myshopify.com'', accessToken = ''shpat_b'',
       apiVersion = None\<rparr>, SetDefault ''''] newStoreRegistry) = Some ''''
   \<and> getDefaultAlias (run toLowerCase_ascii [Register '''' \<lparr>domain = ''a.myshopify.com'', accessToken = ''shpat_a'',
       apiVersion = None\<rparr>,
     Register ''b'' \<lparr>domain = ''b.myshopify.com'', accessToken = ''shpat_b'',
       apiVersion = None\<rparr>, SetDefault ''''] newStoreRegistry) = None"
  by (simp add: registry_eval)

section \<open>The cache of clients\<close>

lemma clients_register:
  "Map_get (clients (register toLowerCase a config r)) k =
     (if k = toLowerCase a then None else Map_get (clients r) k)"
  by (simp add: register_def Let_def Map_get_delete)

lemma clients_setDefault: "setDefault toLowerCase a r = Inr r' \<Longrightarrow> clients r' = clients r"
  by (auto dest: setDefault_Inr)

lemma clients_getClient:
  assumes "getClient toLowerCase a r = Inr (c, r')" "Map_get (clients r) k = Some c0"
  shows "Map_get (clients r') k = Some c0"
  using assms(1)
proof (cases rule: getClient_cases)
  case (1 k')
  with assms(2) show ?thesis by simp
next
  case (2 k' config)
  with assms(2) have "k \<noteq> toLowerCase k'" by auto
  with assms(2) show ?thesis by (simp add: 2(5) Map_get_set)
qed

lemma clients_step:
  assumes "Map_get (clients r) k = Some c0" "\<not> registers toLowerCase k c"
  shows "Map_get (clients (step toLowerCase c r)) k = Some c0"
proof (cases c)
  case (Register a config)
  with assms show ?thesis by (auto simp: clients_register)
next
  case (SetDefault a)
  with assms show ?thesis by (cases "setDefault toLowerCase a r") (auto dest: clients_setDefault)
next
  case (GetClient a)
  with assms show ?thesis by (cases "getClient toLowerCase a r") (auto dest: clients_getClient)
qed (use assms in simp_all)

lemma clients_fold:
  "Map_get (clients r) k = Some c0 \<Longrightarrow> \<forall>c \<in> set cs. \<not> registers toLowerCase k c
   \<Longrightarrow> Map_get (clients (fold (step toLowerCase) cs r)) k = Some c0"
  by (induction cs arbitrary: r) (simp_all add: clients_step)

lemma getClient_caches:
  assumes "getClient toLowerCase a r = Inr (c, r')"
  obtains k where "resolveAlias toLowerCase a r = Inr k" "Map_get (clients r') (toLowerCase k) = Some c"
    "r' = r \<or> r' = r\<lparr>clients := Map_set (toLowerCase k) c (clients r),
                       allocated := Suc (allocated r)\<rparr>"
  using assms
proof (cases rule: getClient_cases)
  case (1 k)
  then show ?thesis by (intro that [of k]) simp_all
next
  case (2 k config)
  then show ?thesis by (intro that [of k]) (simp_all add: Map_get_set)
qed

text \<open>
  \<^bold>\<open>C5.\<close> Whatever function \<open>toLowerCase\<close> is: in every registry in which
  \<open>getClient\<close> returns a client, the call leaves
  the registry as it was or only adds the client to the cache and counts the new
  object; a second \<open>getClient\<close> whose argument resolves to the same alias returns the
  same instance and changes nothing, also after any calls in between that do not
  \<open>register\<close> that alias.
\<close>

theorem getClient_again_same_instance:
  assumes "getClient toLowerCase a r = Inr (c, r1)"
  shows "\<exists>k. resolveAlias toLowerCase a r = Inr k
     \<and> (r1 = r \<or> r1 = r\<lparr>clients := Map_set (toLowerCase k) c (clients r),
                          allocated := Suc (allocated r)\<rparr>)
     \<and> (\<forall>b. resolveAlias toLowerCase b r1 = Inr k \<longrightarrow> getClient toLowerCase b r1 = Inr (c, r1))
     \<and> (\<forall>cs b. (\<forall>x \<in> set cs. \<not> registers toLowerCase (toLowerCase k) x)
                 \<and> resolveAlias toLowerCase b (run toLowerCase cs r1) = Inr k
               \<longrightarrow> getClient toLowerCase b (run toLowerCase cs r1) = Inr (c, run toLowerCase cs r1))"
  using assms
proof (cases rule: getClient_caches)
  case (1 k)
  have later: "getClient toLowerCase b (run toLowerCase cs r1) = Inr (c, run toLowerCase cs r1)"
    if "\<forall>x \<in> set cs. \<not> registers toLowerCase (toLowerCase k) x" "resolveAlias toLowerCase b (run toLowerCase cs r1) = Inr k"
    for cs b
  proof -
    from clients_fold [OF 1(2) that(1)]
    have "Map_get (clients (run toLowerCase cs r1)) (toLowerCase k) = Some c" by (simp add: run_def)
    with that(2) show ?thesis by (rule getClient_cached)
  qed
  have now: "getClient toLowerCase b r1 = Inr (c, r1)" if "resolveAlias toLowerCase b r1 = Inr k" for b
    using later [of "[]" b] that by (simp add: run_def)
  from 1(1) 1(3) now later show ?thesis by blast
qed

theorem getClient_again_same_instance_witness:
  "getClient toLowerCase_ascii (Some ''acme'') (register toLowerCase_ascii ''Acme'' \<lparr>domain = ''a.io'', accessToken = ''t'',
       apiVersion = None\<rparr> newStoreRegistry)
     = Inr (newGraphQLClient 0 \<lparr>domain = ''a.io'', accessToken = ''t'',
                                  apiVersion = Some ''2024-01''\<rparr>,
            \<lparr>stores = [(''acme'', \<lparr>domain = ''a.io'', accessToken = ''t'',
                                   apiVersion = Some ''2024-01''\<rparr>)],
             clients = [(''acme'', newGraphQLClient 0 \<lparr>domain = ''a.io'', accessToken = ''t'',
                                     apiVersion = Some ''2024-01''\<rparr>)],
             defaultStoreAlias = None, allocated = 1\<rparr>)
   \<and> resolveAlias toLowerCase_ascii (Some ''ACME'')
            \<lparr>stores = [(''acme'', \<lparr>domain = ''a.io'', accessToken = ''t'',
                                   apiVersion = Some ''2024-01''\<rparr>)],
             clients = [(''acme'', newGraphQLClient 0 \<lparr>domain = ''a.io'', accessToken = ''t'',
                                     apiVersion = Some ''2024-01''\<rparr>)],
             defaultStoreAlias = None, allocated = 1\<rparr> = Inr ''acme''
   \<and> getClient toLowerCase_ascii (Some ''ACME'')
            \<lparr>stores = [(''acme'', \<lparr>domain = ''a.io'', accessToken = ''t'',
                                   apiVersion = Some ''2024-01''\<rparr>)],
             clients = [(''acme'', newGraphQLClient 0 \<lparr>domain = ''a.io'', accessToken = ''t'',
                                     apiVersion = Some ''2024-01''\<rparr>)],
             defaultStoreAlias = None, allocated = 1\<rparr>
       = Inr (newGraphQLClient 0 \<lparr>domain = ''a.io'', accessToken = ''t'',
                                  apiVersion = Some ''2024-01''\<rparr>,
            \<lparr>stores = [(''acme'', \<lparr>domain = ''a.io'', accessToken = ''t'',
                                   apiVersion = Some ''2024-01''\<rparr>)],
             clients = [(''acme'', newGraphQLClient 0 \<lparr>domain = ''a.io'', accessToken = ''t'',
                                     apiVersion = Some ''2024-01''\<rparr>)],
             defaultStoreAlias = None, allocated = 1\<rparr>)"
proof -
  let ?r1 = "\<lparr>stores = [(''acme'', \<lparr>domain = ''a.io'', accessToken = ''t'',
                                   apiVersion = Some ''2024-01''\<rparr>)],
             clients = [(''acme'', newGraphQLClient 0 \<lparr>domain = ''a.io'', accessToken = ''t'',
                                     apiVersion = Some ''2024-01''\<rparr>)],
             defaultStoreAlias = None, allocated = 1\<rparr>"
  have h: "getClient toLowerCase_ascii (Some ''acme'') (register toLowerCase_ascii ''Acme'' \<lparr>domain = ''a.io'', accessToken = ''t'',
       apiVersion = None\<rparr> newStoreRegistry)
     = Inr (newGraphQLClient 0 \<lparr>domain = ''a.io'', accessToken = ''t'',
                                  apiVersion = Some ''2024-01''\<rparr>, ?r1)"
    by (simp add: registry_eval)
  have k: "resolveAlias toLowerCase_ascii (Some ''acme'') (register toLowerCase_ascii ''Acme'' \<lparr>domain = ''a.io'', accessToken = ''t'',
       apiVersion = None\<rparr> newStoreRegistry) = Inr ''acme''"
    by (simp add: registry_eval)
  have b: "resolveAlias toLowerCase_ascii (Some ''ACME'') ?r1 = Inr ''acme''"
    by (simp add: registry_eval)
  from getClient_again_same_instance [OF h] k b h show ?thesis by auto
qed

section \<open>Object identity of clients\<close>

lemma allocated_step: "allocated r \<le> allocated (step toLowerCase c r)"
proof (cases c)
  case (Register a config)
  then show ?thesis by (simp add: register_def Let_def)
next
  case (SetDefault a)
  then show ?thesis by (cases "setDefault toLowerCase a r") (auto dest: setDefault_Inr)
next
  case (GetClient a)
  show ?thesis
  proof (cases "getClient toLowerCase a r")
    case (Inl e)
    with GetClient show ?thesis by simp
  next
    case (Inr p)
    obtain c' r' where p: "p = (c', r')" by (cases p)
    from Inr [unfolded p] have "allocated r \<le> allocated r'"
      by (cases rule: getClient_cases) simp_all
    with GetClient Inr p show ?thesis by simp
  qed
qed simp_all

lemma allocated_fold: "allocated r \<le> allocated (fold (step toLowerCase) cs r)"
proof (induction cs arbitrary: r)
  case Nil
  show ?case by simp
next
  case (Cons c cs)
  from allocated_step [of r toLowerCase c] Cons [of "step toLowerCase c r"] show ?case by simp
qed

lemma getClient_instance:
  assumes "wf toLowerCase r" "getClient toLowerCase a r = Inr (c, r')"
  shows "instance c < allocated r'"
proof -
  from assms(2) obtain k where "Map_get (clients r') (toLowerCase k) = Some c"
    by (rule getClient_caches)
  then have "(toLowerCase k, c) \<in> set (clients r')" by (rule Map_get_in)
  moreover from assms have "wf toLowerCase r'" by (rule wf_getClient)
  ultimately show ?thesis by (auto simp: wf_def)
qed

lemma stores_register:
  "Map_get (stores (register toLowerCase a config r)) k =
     (if k = toLowerCase a
      then Some (config\<lparr>apiVersion := Some (or_else (apiVersion config) DEFAULT_API_VERSION)\<rparr>)
      else Map_get (stores r) k)"
  by (simp add: register_def Let_def Map_get_set)

lemma resolveAlias_found:
  "a \<noteq> [] \<Longrightarrow> Map_get (stores r) (toLowerCase a) = Some config
   \<Longrightarrow> resolveAlias toLowerCase (Some a) r = Inr (toLowerCase a)"
  by (simp add: resolveAlias_def Let_def Map_has_def)

lemma getClient_after_register:
  assumes lc: "lowercasing toLowerCase" and a: "a \<noteq> []" and eq: "toLowerCase b = toLowerCase a"
  shows "getClient toLowerCase (Some b) (register toLowerCase a config r) =
     Inr (newGraphQLClient (allocated r)
            (config\<lparr>apiVersion := Some (or_else (apiVersion config) DEFAULT_API_VERSION)\<rparr>),
          (register toLowerCase a config r)
            \<lparr>clients := Map_set (toLowerCase a)
                (newGraphQLClient (allocated r)
                   (config\<lparr>apiVersion := Some (or_else (apiVersion config) DEFAULT_API_VERSION)\<rparr>))
                (clients (register toLowerCase a config r)),
             allocated := Suc (allocated r)\<rparr>)"
proof -
  let ?r = "register toLowerCase a config r"
  let ?e = "config\<lparr>apiVersion := Some (or_else (apiVersion config) DEFAULT_API_VERSION)\<rparr>"
  from a eq have b: "b \<noteq> []"
    using lowercasing_Nil_iff [OF lc, of a] lowercasing_Nil_iff [OF lc, of b] by auto
  note idem = lowercasing_idem [OF lc]
  have s: "Map_get (stores ?r) (toLowerCase b) = Some ?e" by (simp add: stores_register eq)
  from resolveAlias_found [where toLowerCase = toLowerCase, OF b s] have res: "resolveAlias toLowerCase (Some b) ?r = Inr (toLowerCase a)"
    by (simp add: eq)
  have c: "Map_get (clients ?r) (toLowerCase (toLowerCase a)) = None"
    by (simp add: clients_register idem)
  have s': "Map_get (stores ?r) (toLowerCase (toLowerCase a)) = Some ?e"
    by (simp add: stores_register idem)
  have al: "allocated ?r = allocated r" by (simp add: register_def Let_def)
  from getClient_fresh [OF res c s'] show ?thesis by (simp add: al idem)
qed

section \<open>Aliases in any casing\<close>

lemma resolveAlias_casing:
  assumes "lowercasing toLowerCase" "toLowerCase b = toLowerCase a" "a \<noteq> []"
    "hasStore toLowerCase a r"
  shows "resolveAlias toLowerCase (Some b) r = Inr (toLowerCase a)"
proof -
  from assms(2,3) have "b \<noteq> []"
    using lowercasing_Nil_iff [OF assms(1), of a] lowercasing_Nil_iff [OF assms(1), of b] by auto
  with assms(2,4) show ?thesis by (simp add: resolveAlias_def hasStore_def Let_def)
qed

lemma getStoreInfo_eq:
  "resolveAlias toLowerCase a r = Inr k \<Longrightarrow> resolveAlias toLowerCase b r = Inr k \<Longrightarrow> Map_get (stores r) (toLowerCase k) \<noteq> None
   \<Longrightarrow> getStoreInfo toLowerCase b r = getStoreInfo toLowerCase a r"
  by (auto simp: getStoreInfo_def)

lemma getClient_eq:
  "resolveAlias toLowerCase a r = Inr k \<Longrightarrow> resolveAlias toLowerCase b r = Inr k \<Longrightarrow> Map_get (stores r) (toLowerCase k) \<noteq> None
   \<Longrightarrow> getClient toLowerCase b r = getClient toLowerCase a r"
  by (auto simp: getClient_def Let_def split: option.splits)

lemma distinct_lower_keys:
  assumes "wf toLowerCase r"
  shows "distinct (map toLowerCase (Map_keys (stores r)))"
proof -
  from assms have "map toLowerCase (Map_keys (stores r)) = Map_keys (stores r)"
    by (simp add: wf_def map_idI)
  with assms show ?thesis by (simp add: wf_def)
qed

text \<open>
  \<^bold>\<open>C1\<close>, as amended: the alias is not the empty string. For every lowercasing
  \<open>toLowerCase\<close>, every non-empty alias \<open>a\<close> and every casing \<open>b\<close> of it (every string
  with the same lower-case form), \<open>register a config\<close> stores the entry under the alias
  in lower case; \<open>hasStore\<close>, \<open>getStoreInfo\<close>, \<open>getClient\<close> and \<open>setDefault\<close> given \<open>b\<close>
  find that entry, and \<open>getStoreInfo\<close> returns the alias in lower case; in every
  registry in which \<open>a\<close> is registered, they give with \<open>b\<close> what they give with \<open>a\<close>;
  and after any sequence of calls no two entries of \<open>stores\<close> have aliases with the same
  lower-case form.
\<close>

theorem alias_case_insensitive:
  assumes lc: "lowercasing toLowerCase" and a: "a \<noteq> []" and eq: "toLowerCase b = toLowerCase a"
  shows "Map_get (stores (register toLowerCase a config r)) (toLowerCase a)
           = Some (config\<lparr>apiVersion := Some (or_else (apiVersion config) DEFAULT_API_VERSION)\<rparr>)
     \<and> hasStore toLowerCase b (register toLowerCase a config r)
     \<and> getStoreInfo toLowerCase (Some b) (register toLowerCase a config r)
           = Inr \<lparr>info_alias = toLowerCase a, info_domain = domain config\<rparr>
     \<and> (\<exists>r'. getClient toLowerCase (Some b) (register toLowerCase a config r)
           = Inr (newGraphQLClient (allocated r)
                   (config\<lparr>apiVersion := Some (or_else (apiVersion config) DEFAULT_API_VERSION)\<rparr>),
                  r'))
     \<and> setDefault toLowerCase b (register toLowerCase a config r)
           = Inr ((register toLowerCase a config r)\<lparr>defaultStoreAlias := Some (toLowerCase a)\<rparr>)
     \<and> (\<forall>s. hasStore toLowerCase b s = hasStore toLowerCase a s
            \<and> (hasStore toLowerCase a s \<longrightarrow>
                  getStoreInfo toLowerCase (Some b) s = getStoreInfo toLowerCase (Some a) s
                  \<and> getClient toLowerCase (Some b) s = getClient toLowerCase (Some a) s
                  \<and> setDefault toLowerCase b s = setDefault toLowerCase a s))
     \<and> distinct (map toLowerCase (Map_keys (stores (run toLowerCase cs newStoreRegistry))))"
proof -
  let ?r = "register toLowerCase a config r"
  let ?e = "config\<lparr>apiVersion := Some (or_else (apiVersion config) DEFAULT_API_VERSION)\<rparr>"
  note idem = lowercasing_idem [OF lc]
  have casing: "hasStore toLowerCase b s = hasStore toLowerCase a s" for s
    by (simp add: hasStore_def eq)
  have default: "setDefault toLowerCase b' s = Inr (s\<lparr>defaultStoreAlias := Some (toLowerCase a)\<rparr>)"
    if "toLowerCase b' = toLowerCase a" "hasStore toLowerCase a s" for b' s
    using that by (simp add: setDefault_def hasStore_def Let_def)
  have 1: "Map_get (stores ?r) (toLowerCase a) = Some ?e" by (simp add: stores_register)
  then have ha: "hasStore toLowerCase a ?r" by (simp add: hasStore_def Map_has_def)
  with casing have 2: "hasStore toLowerCase b ?r" by simp
  from resolveAlias_casing [OF lc eq a ha]
  have res: "resolveAlias toLowerCase (Some b) ?r = Inr (toLowerCase a)" .
  have "Map_get (stores ?r) (toLowerCase (toLowerCase a)) = Some ?e"
    by (simp add: stores_register idem)
  from getStoreInfo_found [OF res this]
  have 3: "getStoreInfo toLowerCase (Some b) ?r
             = Inr \<lparr>info_alias = toLowerCase a, info_domain = domain config\<rparr>"
    by simp
  from getClient_after_register [OF lc a eq, of config r]
  have 4: "\<exists>r'. getClient toLowerCase (Some b) ?r = Inr (newGraphQLClient (allocated r) ?e, r')"
    by blast
  from default [OF eq ha]
  have 5: "setDefault toLowerCase b ?r = Inr (?r\<lparr>defaultStoreAlias := Some (toLowerCase a)\<rparr>)" .
  have 6: "hasStore toLowerCase b s = hasStore toLowerCase a s
            \<and> (hasStore toLowerCase a s \<longrightarrow>
                  getStoreInfo toLowerCase (Some b) s = getStoreInfo toLowerCase (Some a) s
                  \<and> getClient toLowerCase (Some b) s = getClient toLowerCase (Some a) s
                  \<and> setDefault toLowerCase b s = setDefault toLowerCase a s)" for s
  proof (intro conjI impI)
    show "hasStore toLowerCase b s = hasStore toLowerCase a s" by (rule casing)
    assume h: "hasStore toLowerCase a s"
    from resolveAlias_casing [OF lc eq a h] resolveAlias_casing [OF lc refl a h]
    have rb: "resolveAlias toLowerCase (Some b) s = Inr (toLowerCase a)"
      and ra: "resolveAlias toLowerCase (Some a) s = Inr (toLowerCase a)" .
    from h have st: "Map_get (stores s) (toLowerCase (toLowerCase a)) \<noteq> None"
      by (simp add: hasStore_def Map_has_def idem)
    from ra rb st show "getStoreInfo toLowerCase (Some b) s = getStoreInfo toLowerCase (Some a) s"
      by (rule getStoreInfo_eq)
    from ra rb st show "getClient toLowerCase (Some b) s = getClient toLowerCase (Some a) s"
      by (rule getClient_eq)
    from default [OF eq h] default [OF refl h]
    show "setDefault toLowerCase b s = setDefault toLowerCase a s" by simp
  qed
  from wf_run [OF lc]
  have 7: "distinct (map toLowerCase (Map_keys (stores (run toLowerCase cs newStoreRegistry))))"
    by (rule distinct_lower_keys)
  from 1 2 3 4 5 6 7 show ?thesis by blast
qed

theorem alias_case_insensitive_witness:
  "''ACME'' \<noteq> [] \<and> toLowerCase_ascii ''Acme'' = toLowerCase_ascii ''ACME''
   \<and> getStoreInfo toLowerCase_ascii (Some ''Acme'')
        (register toLowerCase_ascii ''ACME''
           \<lparr>domain = ''a.io'', accessToken = ''t'', apiVersion = None\<rparr> newStoreRegistry)
      = Inr \<lparr>info_alias = ''acme'', info_domain = ''a.io''\<rparr>"
proof -
  have 1: "''ACME'' \<noteq> []" by simp
  have 2: "toLowerCase_ascii ''Acme'' = toLowerCase_ascii ''ACME''" by (simp add: lower_eval)
  have 3: "toLowerCase_ascii ''ACME'' = ''acme''" by (simp add: lower_eval)
  from alias_case_insensitive [OF lowercasing_ascii 1 2, of "\<lparr>domain = ''a.io'', accessToken = ''t'',
    apiVersion = None\<rparr>" newStoreRegistry] 1 2 3
  show ?thesis by simp
qed

theorem alias_case_insensitive_counterexample:
  "hasStore toLowerCase_ascii '''' (register toLowerCase_ascii '''' \<lparr>domain = ''a.io'', accessToken = ''t'', apiVersion = None\<rparr>
                    newStoreRegistry)
   \<and> getStoreInfo toLowerCase_ascii (Some '''')
        (register toLowerCase_ascii '''' \<lparr>domain = ''a.io'', accessToken = ''t'', apiVersion = None\<rparr>
           newStoreRegistry) = Inl (NoDefaultStore [''''])
   \<and> getClient toLowerCase_ascii (Some '''')
        (register toLowerCase_ascii '''' \<lparr>domain = ''a.io'', accessToken = ''t'', apiVersion = None\<rparr>
           newStoreRegistry) = Inl (NoDefaultStore [''''])"
  by (simp add: registry_eval)

section \<open>Failures of alias resolution\<close>

lemma resolveAlias_unknown:
  "a \<noteq> [] \<Longrightarrow> \<not> hasStore toLowerCase a r \<Longrightarrow>
   resolveAlias toLowerCase (Some a) r = Inl (AliasNotFound (Some a) (listAliases r))"
  by (simp add: resolveAlias_def hasStore_def Let_def)

lemma truthy_getDefaultAlias:
  assumes "wf toLowerCase r" "[] \<notin> set (listAliases r)"
  shows "truthy (getDefaultAlias r) \<longleftrightarrow>
           \<not> ((size_registry r = 0 \<or> 2 \<le> size_registry r) \<and> defaultStoreAlias r = None)"
proof (cases "defaultStoreAlias r")
  case (Some d)
  with assms have "d \<noteq> []" by (auto simp: wf_def listAliases_def)
  with Some show ?thesis by (simp add: getDefaultAlias_explicit)
next
  case None
  show ?thesis
  proof (cases "stores r")
    case Nil
    with None show ?thesis by (simp add: getDefaultAlias_def size_registry_def)
  next
    case (Cons p ps)
    obtain k e where p: "p = (k, e)" by (cases p)
    from assms(2) Cons p have "k \<noteq> []" by (auto simp: listAliases_def Map_keys_def)
    with None Cons p show ?thesis
      by (cases ps) (simp_all add: getDefaultAlias_def size_registry_def Map_keys_def)
  qed
qed

text \<open>
  \<^bold>\<open>C3\<close>, as amended: the empty string counts as no alias. In every registry, given a
  non-empty alias whose lower-case form is not registered, \<open>resolveAlias\<close>, \<open>getClient\<close>
  and \<open>getStoreInfo\<close> fail with the error whose message lists the registered aliases.
  For every lowercasing, in every registry reached from the empty one in which the
  empty string is not a registered alias: given no alias, or the empty string, they
  fail with the no-default error exactly when zero stores or two or more stores are
  registered and no default has been set, and return otherwise.
\<close>

theorem alias_resolution_errors:
  "(\<forall>a. a \<noteq> [] \<and> \<not> hasStore toLowerCase a r \<longrightarrow>
         resolveAlias toLowerCase (Some a) r = Inl (AliasNotFound (Some a) (listAliases r))
       \<and> getClient toLowerCase (Some a) r = Inl (AliasNotFound (Some a) (listAliases r))
       \<and> getStoreInfo toLowerCase (Some a) r = Inl (AliasNotFound (Some a) (listAliases r))
       \<and> message (AliasNotFound (Some a) (listAliases r))
           = ''Store \"'' @ a @ ''\" not found. Available stores: '' @ join '', '' (listAliases r))
   \<and> (lowercasing toLowerCase \<and> [] \<notin> set (listAliases (run toLowerCase cs newStoreRegistry)) \<longrightarrow>
        (\<forall>a. a = None \<or> a = Some [] \<longrightarrow>
           (if (size_registry (run toLowerCase cs newStoreRegistry) = 0
                \<or> 2 \<le> size_registry (run toLowerCase cs newStoreRegistry))
               \<and> defaultStoreAlias (run toLowerCase cs newStoreRegistry) = None
            then resolveAlias toLowerCase a (run toLowerCase cs newStoreRegistry)
                   = Inl (NoDefaultStore (listAliases (run toLowerCase cs newStoreRegistry)))
               \<and> getClient toLowerCase a (run toLowerCase cs newStoreRegistry)
                   = Inl (NoDefaultStore (listAliases (run toLowerCase cs newStoreRegistry)))
               \<and> getStoreInfo toLowerCase a (run toLowerCase cs newStoreRegistry)
                   = Inl (NoDefaultStore (listAliases (run toLowerCase cs newStoreRegistry)))
            else (\<exists>k. resolveAlias toLowerCase a (run toLowerCase cs newStoreRegistry) = Inr k)
               \<and> (\<exists>c r'. getClient toLowerCase a (run toLowerCase cs newStoreRegistry) = Inr (c, r'))
               \<and> (\<exists>i. getStoreInfo toLowerCase a (run toLowerCase cs newStoreRegistry) = Inr i))))"
proof (intro conjI allI impI)
  {
    fix a assume "a \<noteq> [] \<and> \<not> hasStore toLowerCase a r"
    then have res: "resolveAlias toLowerCase (Some a) r = Inl (AliasNotFound (Some a) (listAliases r))"
      by (simp add: resolveAlias_unknown)
    then show "resolveAlias toLowerCase (Some a) r = Inl (AliasNotFound (Some a) (listAliases r))" .
    from res show "getClient toLowerCase (Some a) r = Inl (AliasNotFound (Some a) (listAliases r))"
      by (rule getClient_Inl)
    from res show "getStoreInfo toLowerCase (Some a) r = Inl (AliasNotFound (Some a) (listAliases r))"
      by (rule getStoreInfo_Inl)
    show "message (AliasNotFound (Some a) (listAliases r))
            = ''Store \"'' @ a @ ''\" not found. Available stores: '' @ join '', '' (listAliases r)"
      by simp
  }
  let ?r = "run toLowerCase cs newStoreRegistry"
  assume h: "lowercasing toLowerCase \<and> [] \<notin> set (listAliases ?r)"
  then have wfr: "wf toLowerCase ?r" and ne: "[] \<notin> set (listAliases ?r)"
    by (simp_all add: wf_run)
  fix a :: "string option" assume "a = None \<or> a = Some []"
  then have a: "\<not> truthy a" by auto
  let ?none = "(size_registry ?r = 0 \<or> 2 \<le> size_registry ?r) \<and> defaultStoreAlias ?r = None"
  show "if ?none
        then resolveAlias toLowerCase a ?r = Inl (NoDefaultStore (listAliases ?r))
           \<and> getClient toLowerCase a ?r = Inl (NoDefaultStore (listAliases ?r))
           \<and> getStoreInfo toLowerCase a ?r = Inl (NoDefaultStore (listAliases ?r))
        else (\<exists>k. resolveAlias toLowerCase a ?r = Inr k)
           \<and> (\<exists>c r'. getClient toLowerCase a ?r = Inr (c, r'))
           \<and> (\<exists>i. getStoreInfo toLowerCase a ?r = Inr i)"
  proof (cases ?none)
    case True
    with truthy_getDefaultAlias [OF wfr ne] have "\<not> truthy (getDefaultAlias ?r)" by simp
    with a have res: "resolveAlias toLowerCase a ?r = Inl (NoDefaultStore (listAliases ?r))"
      by (simp add: resolveAlias_None)
    from res getClient_Inl [OF res] getStoreInfo_Inl [OF res] True show ?thesis by simp
  next
    case False
    with truthy_getDefaultAlias [OF wfr ne] have "truthy (getDefaultAlias ?r)" by simp
    with a have res: "resolveAlias toLowerCase a ?r = Inr (the (getDefaultAlias ?r))"
      by (simp add: resolveAlias_None)
    from res getClient_succeeds [OF wfr res] getStoreInfo_succeeds [OF wfr res] False
    show ?thesis by auto
  qed
qed

theorem alias_resolution_errors_witness:
  "[] \<notin> set (listAliases (run toLowerCase_ascii [Register ''acme'' \<lparr>domain = ''a.io'', accessToken = ''t1'', apiVersion = None\<rparr>,
          Register ''beta'' \<lparr>domain = ''b.io'', accessToken = ''t2'', apiVersion = None\<rparr>] newStoreRegistry))
   \<and> ''nope'' \<noteq> []
   \<and> \<not> hasStore toLowerCase_ascii ''nope'' (run toLowerCase_ascii [Register ''acme'' \<lparr>domain = ''a.io'', accessToken = ''t1'', apiVersion = None\<rparr>,
          Register ''beta'' \<lparr>domain = ''b.io'', accessToken = ''t2'', apiVersion = None\<rparr>] newStoreRegistry)
   \<and> getClient toLowerCase_ascii (Some ''nope'') (run toLowerCase_ascii [Register ''acme'' \<lparr>domain = ''a.io'', accessToken = ''t1'', apiVersion = None\<rparr>,
          Register ''beta'' \<lparr>domain = ''b.io'', accessToken = ''t2'', apiVersion = None\<rparr>] newStoreRegistry)
       = Inl (AliasNotFound (Some ''nope'') [''acme'', ''beta''])
   \<and> message (AliasNotFound (Some ''nope'') [''acme'', ''beta''])
       = ''Store \"nope\" not found. Available stores: acme, beta''
   \<and> size_registry (run toLowerCase_ascii [Register ''acme'' \<lparr>domain = ''a.io'', accessToken = ''t1'', apiVersion = None\<rparr>,
          Register ''beta'' \<lparr>domain = ''b.io'', accessToken = ''t2'', apiVersion = None\<rparr>] newStoreRegistry) = 2
   \<and> defaultStoreAlias (run toLowerCase_ascii [Register ''acme'' \<lparr>domain = ''a.io'', accessToken = ''t1'', apiVersion = None\<rparr>,
          Register ''beta'' \<lparr>domain = ''b.io'', accessToken = ''t2'', apiVersion = None\<rparr>] newStoreRegistry) = None
   \<and> getClient toLowerCase_ascii None (run toLowerCase_ascii [Register ''acme'' \<lparr>domain = ''a.io'', accessToken = ''t1'', apiVersion = None\<rparr>,
          Register ''beta'' \<lparr>domain = ''b.io'', accessToken = ''t2'', apiVersion = None\<rparr>] newStoreRegistry)
       = Inl (NoDefaultStore [''acme'', ''beta''])"
proof -
  have h: "[] \<notin> set (listAliases (run toLowerCase_ascii [Register ''acme'' \<lparr>domain = ''a.io'', accessToken = ''t1'', apiVersion = None\<rparr>,
          Register ''beta'' \<lparr>domain = ''b.io'', accessToken = ''t2'', apiVersion = None\<rparr>] newStoreRegistry))"
    by (simp add: registry_eval)
  from alias_resolution_errors [where toLowerCase = toLowerCase_ascii
      and r = "(run toLowerCase_ascii [Register ''acme'' \<lparr>domain = ''a.io'', accessToken = ''t1'', apiVersion = None\<rparr>,
          Register ''beta'' \<lparr>domain = ''b.io'', accessToken = ''t2'', apiVersion = None\<rparr>] newStoreRegistry)"
      and cs = "[Register ''acme'' \<lparr>domain = ''a.io'', accessToken = ''t1'', apiVersion = None\<rparr>,
          Register ''beta'' \<lparr>domain = ''b.io'', accessToken = ''t2'', apiVersion = None\<rparr>]"]
    lowercasing_ascii h
  show ?thesis
    by (simp add: registry_eval)
qed

theorem alias_resolution_errors_counterexample:
  "\<not> hasStore toLowerCase_ascii '''' (register toLowerCase_ascii ''acme'' \<lparr>domain = ''a.io'', accessToken = ''t1'', apiVersion = None\<rparr> newStoreRegistry)
   \<and> resolveAlias toLowerCase_ascii (Some '''') (register toLowerCase_ascii ''acme'' \<lparr>domain = ''a.io'', accessToken = ''t1'', apiVersion = None\<rparr> newStoreRegistry) = Inr ''acme''
   \<and> getStoreInfo toLowerCase_ascii (Some '''') (register toLowerCase_ascii ''acme'' \<lparr>domain = ''a.io'', accessToken = ''t1'', apiVersion = None\<rparr> newStoreRegistry)
       = Inr \<lparr>info_alias = ''acme'', info_domain = ''a.io''\<rparr>
   \<and> getClient toLowerCase_ascii (Some '''') (register toLowerCase_ascii ''acme'' \<lparr>domain = ''a.io'', accessToken = ''t1'', apiVersion = None\<rparr> newStoreRegistry)
       \<noteq> Inl (AliasNotFound (Some '''') (listAliases (register toLowerCase_ascii ''acme'' \<lparr>domain = ''a.io'', accessToken = ''t1'', apiVersion = None\<rparr> newStoreRegistry)))
   \<and> size_registry (register toLowerCase_ascii '''' \<lparr>domain = ''a.io'', accessToken = ''t1'', apiVersion = None\<rparr> newStoreRegistry) = 1
   \<and> getClient toLowerCase_ascii None (register toLowerCase_ascii '''' \<lparr>domain = ''a.io'', accessToken = ''t1'', apiVersion = None\<rparr> newStoreRegistry) = Inl (NoDefaultStore [''''])
   \<and> getStoreInfo toLowerCase_ascii None (register toLowerCase_ascii '''' \<lparr>domain = ''a.io'', accessToken = ''t1'', apiVersion = None\<rparr> newStoreRegistry) = Inl (NoDefaultStore [''''])"
  by (simp add: registry_eval)

section \<open>The entries of \<open>stores\<close>\<close>

lemma stores_setDefault: "setDefault toLowerCase a r = Inr r' \<Longrightarrow> stores r' = stores r"
  by (auto dest: setDefault_Inr)

lemma stores_getClient: "getClient toLowerCase a r = Inr (c, r') \<Longrightarrow> stores r' = stores r"
  by (erule getClient_cases) simp_all

lemma stores_of_register:
  "stores (register toLowerCase a config r) =
     Map_set (toLowerCase a)
       (config\<lparr>apiVersion := Some (or_else (apiVersion config) DEFAULT_API_VERSION)\<rparr>)
       (stores r)"
  by (simp add: register_def Let_def)

lemma keys_register:
  "set (Map_keys (stores (register toLowerCase a config r))) = insert (toLowerCase a) (set (Map_keys (stores r)))"
  by (auto simp: stores_of_register Map_keys_set)

lemma stores_step:
  "stores (step toLowerCase c r) =
     (case c of
        Register a config \<Rightarrow>
          Map_set (toLowerCase a)
            (config\<lparr>apiVersion := Some (or_else (apiVersion config) DEFAULT_API_VERSION)\<rparr>)
            (stores r)
      | _ \<Rightarrow> stores r)"
proof (cases c)
  case (Register a config)
  then show ?thesis by (simp add: register_def Let_def)
next
  case (SetDefault a)
  then show ?thesis by (cases "setDefault toLowerCase a r") (auto dest: stores_setDefault)
next
  case (GetClient a)
  then show ?thesis by (cases "getClient toLowerCase a r") (auto dest: stores_getClient)
qed simp_all

lemma stored_origin:
  "(k, e) \<in> set (stores (fold (step toLowerCase) cs r)) \<Longrightarrow>
     (k, e) \<in> set (stores r)
     \<or> (\<exists>a config. Register a config \<in> set cs \<and> k = toLowerCase a
           \<and> e = config\<lparr>apiVersion := Some (or_else (apiVersion config) DEFAULT_API_VERSION)\<rparr>)"
proof (induction cs arbitrary: r)
  case Nil
  then show ?case by simp
next
  case (Cons c cs)
  from Cons.prems have "(k, e) \<in> set (stores (fold (step toLowerCase) cs (step toLowerCase c r)))" by simp
  from Cons.IH [OF this] show ?case
  proof
    assume "(k, e) \<in> set (stores (step toLowerCase c r))"
    then have in_step: "(k, e) \<in> set (case c of
        Register a config \<Rightarrow>
          Map_set (toLowerCase a)
            (config\<lparr>apiVersion := Some (or_else (apiVersion config) DEFAULT_API_VERSION)\<rparr>)
            (stores r)
      | _ \<Rightarrow> stores r)"
      by (simp only: stores_step)
    show ?thesis
    proof (cases c)
      case (Register a config)
      with in_step set_Map_set_subset [of "toLowerCase a"
          "config\<lparr>apiVersion := Some (or_else (apiVersion config) DEFAULT_API_VERSION)\<rparr>"
          "stores r"]
      have "(k, e) = (toLowerCase a,
              config\<lparr>apiVersion := Some (or_else (apiVersion config) DEFAULT_API_VERSION)\<rparr>)
            \<or> (k, e) \<in> set (stores r)"
        by auto
      with Register show ?thesis by auto
    qed (use in_step in simp_all)
  next
    assume "\<exists>a config. Register a config \<in> set cs \<and> k = toLowerCase a
           \<and> e = config\<lparr>apiVersion := Some (or_else (apiVersion config) DEFAULT_API_VERSION)\<rparr>"
    then show ?thesis by auto
  qed
qed

lemma or_else_nonempty: "d \<noteq> [] \<Longrightarrow> or_else x d \<noteq> []"
  by (cases x) simp_all

text \<open>
  \<^bold>\<open>C6\<close>, as amended: \<open>register\<close> does not check the domain and the credential. After
  any sequence of calls, every entry of \<open>stores\<close> has its \<open>apiVersion\<close> set to a
  non-empty string, and has a non-empty domain and credential when every \<open>register\<close>
  of the sequence was given a non-empty domain and credential; \<open>register\<close> given a
  configuration without \<open>apiVersion\<close>, or with the empty string as \<open>apiVersion\<close>,
  stores the entry with the default version \<open>2024-01\<close>, and given a non-empty
  \<open>apiVersion\<close> it stores that one.
\<close>

theorem stored_entries_complete:
  "(\<forall>k e. Map_get (stores (run toLowerCase cs newStoreRegistry)) k = Some e \<longrightarrow>
       (\<exists>v. apiVersion e = Some v \<and> v \<noteq> [])
       \<and> ((\<forall>a config. Register a config \<in> set cs \<longrightarrow>
               domain config \<noteq> [] \<and> accessToken config \<noteq> [])
            \<longrightarrow> domain e \<noteq> [] \<and> accessToken e \<noteq> []))
   \<and> (\<forall>a config r. apiVersion config = None \<or> apiVersion config = Some [] \<longrightarrow>
          Map_get (stores (register toLowerCase a config r)) (toLowerCase a)
            = Some (config\<lparr>apiVersion := Some ''2024-01''\<rparr>))
   \<and> (\<forall>a config r v. apiVersion config = Some v \<and> v \<noteq> [] \<longrightarrow>
          Map_get (stores (register toLowerCase a config r)) (toLowerCase a)
            = Some (config\<lparr>apiVersion := Some v\<rparr>))"
proof (intro conjI allI impI)
  fix k e
  assume "Map_get (stores (run toLowerCase cs newStoreRegistry)) k = Some e"
  then have "(k, e) \<in> set (stores (fold (step toLowerCase) cs newStoreRegistry))"
    unfolding run_def by (rule Map_get_in)
  from stored_origin [OF this]
  obtain a config where reg: "Register a config \<in> set cs"
    and e: "e = config\<lparr>apiVersion := Some (or_else (apiVersion config) DEFAULT_API_VERSION)\<rparr>"
    by (auto simp: newStoreRegistry_def)
  have "DEFAULT_API_VERSION \<noteq> []" by (simp add: DEFAULT_API_VERSION_def)
  then have "or_else (apiVersion config) DEFAULT_API_VERSION \<noteq> []" by (rule or_else_nonempty)
  with e show "\<exists>v. apiVersion e = Some v \<and> v \<noteq> []" by simp
  {
    assume "\<forall>a config. Register a config \<in> set cs \<longrightarrow>
               domain config \<noteq> [] \<and> accessToken config \<noteq> []"
    with reg have "domain config \<noteq> [] \<and> accessToken config \<noteq> []" by blast
    with e show "domain e \<noteq> []" "accessToken e \<noteq> []" by simp_all
  }
next
  fix a and config :: StoreConfig and r
  assume "apiVersion config = None \<or> apiVersion config = Some []"
  then show "Map_get (stores (register toLowerCase a config r)) (toLowerCase a)
            = Some (config\<lparr>apiVersion := Some ''2024-01''\<rparr>)"
    by (auto simp: stores_register DEFAULT_API_VERSION_def)
next
  fix a and config :: StoreConfig and r v
  assume "apiVersion config = Some v \<and> v \<noteq> []"
  then show "Map_get (stores (register toLowerCase a config r)) (toLowerCase a)
            = Some (config\<lparr>apiVersion := Some v\<rparr>)"
    by (simp add: stores_register)
qed

theorem stored_entries_complete_witness:
  "Map_get (stores (run toLowerCase_ascii [Register ''acme'' \<lparr>domain = ''a.io'', accessToken = ''t1'', apiVersion = None\<rparr>,
          Register ''beta'' \<lparr>domain = ''b.io'', accessToken = ''t2'', apiVersion = None\<rparr>] newStoreRegistry)) ''beta''
     = Some \<lparr>domain = ''b.io'', accessToken = ''t2'', apiVersion = Some ''2024-01''\<rparr>
   \<and> domain \<lparr>domain = ''a.io'', accessToken = ''t1'', apiVersion = None\<rparr> \<noteq> []
   \<and> accessToken \<lparr>domain = ''a.io'', accessToken = ''t1'', apiVersion = None\<rparr> \<noteq> []
   \<and> domain \<lparr>domain = ''b.io'', accessToken = ''t2'', apiVersion = None\<rparr> \<noteq> []
   \<and> accessToken \<lparr>domain = ''b.io'', accessToken = ''t2'', apiVersion = None\<rparr> \<noteq> []
   \<and> apiVersion \<lparr>domain = ''b.io'', accessToken = ''t2'', apiVersion = None\<rparr> = None
   \<and> apiVersion \<lparr>domain = ''b.io'', accessToken = ''t2'', apiVersion = Some ''2024-01''\<rparr>
       = Some ''2024-01''
   \<and> ''2024-01'' \<noteq> []
   \<and> domain \<lparr>domain = ''b.io'', accessToken = ''t2'', apiVersion = Some ''2024-01''\<rparr> \<noteq> []
   \<and> accessToken \<lparr>domain = ''b.io'', accessToken = ''t2'', apiVersion = Some ''2024-01''\<rparr>
       \<noteq> []
   \<and> Map_get (stores (register toLowerCase_ascii ''Beta'' \<lparr>domain = ''b.io'', accessToken = ''t2'', apiVersion = Some []\<rparr> newStoreRegistry)) ''beta''
       = Some \<lparr>domain = ''b.io'', accessToken = ''t2'', apiVersion = Some ''2024-01''\<rparr>
   \<and> Map_get (stores (register toLowerCase_ascii ''Beta'' \<lparr>domain = ''b.io'', accessToken = ''t2'', apiVersion = Some ''2025-04''\<rparr> newStoreRegistry)) ''beta''
       = Some \<lparr>domain = ''b.io'', accessToken = ''t2'', apiVersion = Some ''2025-04''\<rparr>"
proof -
  have 1: "Map_get (stores (run toLowerCase_ascii [Register ''acme'' \<lparr>domain = ''a.io'', accessToken = ''t1'', apiVersion = None\<rparr>,
          Register ''beta'' \<lparr>domain = ''b.io'', accessToken = ''t2'', apiVersion = None\<rparr>] newStoreRegistry)) ''beta''
     = Some \<lparr>domain = ''b.io'', accessToken = ''t2'', apiVersion = Some ''2024-01''\<rparr>"
    by (simp add: registry_eval)
  have 2: "\<forall>a config. Register a config \<in> set [Register ''acme'' \<lparr>domain = ''a.io'', accessToken = ''t1'', apiVersion = None\<rparr>,
          Register ''beta'' \<lparr>domain = ''b.io'', accessToken = ''t2'', apiVersion = None\<rparr>]
          \<longrightarrow> domain config \<noteq> [] \<and> accessToken config \<noteq> []"
    by auto
  from stored_entries_complete [where toLowerCase = toLowerCase_ascii
      and cs = "[Register ''acme'' \<lparr>domain = ''a.io'', accessToken = ''t1'', apiVersion = None\<rparr>,
          Register ''beta'' \<lparr>domain = ''b.io'', accessToken = ''t2'', apiVersion = None\<rparr>]",
      THEN conjunct1, rule_format, OF 1]
  have "domain \<lparr>domain = ''b.io'', accessToken = ''t2'', apiVersion = Some ''2024-01''\<rparr> \<noteq> []
    \<and> accessToken \<lparr>domain = ''b.io'', accessToken = ''t2'', apiVersion = Some ''2024-01''\<rparr>
       \<noteq> []"
    using 2 by blast
  note 3 = this
  have l: "toLowerCase_ascii ''Beta'' = ''beta''" by (simp add: lower_eval)
  have "apiVersion \<lparr>domain = ''b.io'', accessToken = ''t2'', apiVersion = Some []\<rparr> = None
      \<or> apiVersion \<lparr>domain = ''b.io'', accessToken = ''t2'', apiVersion = Some []\<rparr> = Some []"
    by simp
  from stored_entries_complete [where toLowerCase = toLowerCase_ascii,
      THEN conjunct2, THEN conjunct1, rule_format, OF this, of "''Beta''" newStoreRegistry]
  have 4: "Map_get (stores (register toLowerCase_ascii ''Beta'' \<lparr>domain = ''b.io'', accessToken = ''t2'', apiVersion = Some []\<rparr> newStoreRegistry)) ''beta''
       = Some \<lparr>domain = ''b.io'', accessToken = ''t2'', apiVersion = Some ''2024-01''\<rparr>"
    by (simp add: l)
  have "apiVersion \<lparr>domain = ''b.io'', accessToken = ''t2'', apiVersion = Some ''2025-04''\<rparr> = Some ''2025-04'' \<and> ''2025-04'' \<noteq> []"
    by simp
  from stored_entries_complete [where toLowerCase = toLowerCase_ascii,
      THEN conjunct2, THEN conjunct2, rule_format, OF this, of "''Beta''" newStoreRegistry]
  have 5: "Map_get (stores (register toLowerCase_ascii ''Beta'' \<lparr>domain = ''b.io'', accessToken = ''t2'', apiVersion = Some ''2025-04''\<rparr> newStoreRegistry)) ''beta''
       = Some \<lparr>domain = ''b.io'', accessToken = ''t2'', apiVersion = Some ''2025-04''\<rparr>"
    by (simp add: l)
  from 1 3 4 5 show ?thesis by simp
qed

theorem stored_entries_complete_counterexample:
  "Map_get (stores (run toLowerCase_ascii [Register ''acme'' \<lparr>domain = '''', accessToken = '''',
       apiVersion = None\<rparr>] newStoreRegistry)) ''acme''
     = Some \<lparr>domain = '''', accessToken = '''', apiVersion = Some ''2024-01''\<rparr>"
  by (simp add: registry_eval)

section \<open>Registering an alias again\<close>

lemma cache_current_new: "cache_current newStoreRegistry"
  by (simp add: cache_current_def newStoreRegistry_def)

lemma cache_current_register:
  assumes "cache_current r"
  shows "cache_current (register toLowerCase a config r)"
  unfolding cache_current_def
proof (intro allI impI)
  fix k c
  assume "Map_get (clients (register toLowerCase a config r)) k = Some c"
  then have k: "k \<noteq> toLowerCase a" and c: "Map_get (clients r) k = Some c"
    by (simp_all add: clients_register split: if_splits)
  from assms c obtain config' where "Map_get (stores r) k = Some config'"
    "c = newGraphQLClient (instance c) config'"
    unfolding cache_current_def by blast
  with k show "\<exists>config'. Map_get (stores (register toLowerCase a config r)) k = Some config'
                  \<and> c = newGraphQLClient (instance c) config'"
    by (simp add: stores_register)
qed

lemma cache_current_setDefault:
  "cache_current r \<Longrightarrow> setDefault toLowerCase a r = Inr r' \<Longrightarrow> cache_current r'"
  by (auto dest!: setDefault_Inr simp: cache_current_def)

lemma cache_current_getClient:
  assumes "cache_current r" "getClient toLowerCase a r = Inr (c, r')"
  shows "cache_current r'"
  using assms(2)
proof (cases rule: getClient_cases)
  case (1 k)
  with assms(1) show ?thesis by simp
next
  case (2 k config)
  have c: "c = newGraphQLClient (instance c) config"
    by (simp add: 2(4) newGraphQLClient_def)
  show ?thesis
    unfolding cache_current_def
  proof (intro allI impI)
    fix k' c'
    assume h: "Map_get (clients r') k' = Some c'"
    show "\<exists>config'. Map_get (stores r') k' = Some config'
             \<and> c' = newGraphQLClient (instance c') config'"
    proof (cases "k' = toLowerCase k")
      case True
      with h have "c' = c" by (simp add: 2(5) Map_get_set)
      with True c 2(3) show ?thesis by (auto simp: 2(5))
    next
      case False
      with h have "Map_get (clients r) k' = Some c'" by (simp add: 2(5) Map_get_set)
      with assms(1) show ?thesis unfolding cache_current_def by (simp add: 2(5))
    qed
  qed
qed

lemma cache_current_step: "cache_current r \<Longrightarrow> cache_current (step toLowerCase c r)"
proof (cases c)
  case (Register a config)
  assume "cache_current r" with Register show ?thesis by (simp add: cache_current_register)
next
  case (SetDefault a)
  assume "cache_current r" with SetDefault show ?thesis
    by (cases "setDefault toLowerCase a r") (simp_all add: cache_current_setDefault)
next
  case (GetClient a)
  assume "cache_current r" with GetClient show ?thesis
    by (cases "getClient toLowerCase a r") (auto dest: cache_current_getClient)
qed simp_all

lemma cache_current_fold: "cache_current r \<Longrightarrow> cache_current (fold (step toLowerCase) cs r)"
  by (induction cs arbitrary: r) (simp_all add: cache_current_step)

lemma stores_fold_same:
  "\<forall>y \<in> set cs. \<not> registers toLowerCase k y \<Longrightarrow> Map_get (stores (fold (step toLowerCase) cs r)) k = Map_get (stores r) k"
proof (induction cs arbitrary: r)
  case Nil
  show ?case by simp
next
  case (Cons c cs)
  from Cons.prems have c: "\<not> registers toLowerCase k c" and cs: "\<forall>y \<in> set cs. \<not> registers toLowerCase k y" by simp_all
  have "Map_get (stores (step toLowerCase c r)) k = Map_get (stores r) k"
  proof (cases c)
    case (Register a config)
    with c show ?thesis by (simp add: stores_register)
  qed (simp_all only: stores_step call.case)
  with Cons.IH [OF cs, of "step toLowerCase c r"] show ?case by simp
qed

text \<open>Clients cached for a key since the counter was \<open>n\<close> were constructed since then.\<close>

lemma cached_since_step:
  assumes "\<forall>c'. Map_get (clients r) k = Some c' \<longrightarrow> n \<le> instance c'" "n \<le> allocated r"
  shows "(\<forall>c'. Map_get (clients (step toLowerCase c r)) k = Some c' \<longrightarrow> n \<le> instance c')
         \<and> n \<le> allocated (step toLowerCase c r)"
proof
  from assms(2) allocated_step [of r toLowerCase c] show "n \<le> allocated (step toLowerCase c r)" by simp
  show "\<forall>c'. Map_get (clients (step toLowerCase c r)) k = Some c' \<longrightarrow> n \<le> instance c'"
  proof (cases c)
    case (Register a config)
    with assms(1) show ?thesis by (simp add: clients_register)
  next
    case (SetDefault a)
    with assms(1) show ?thesis by (cases "setDefault toLowerCase a r") (auto dest: clients_setDefault)
  next
    case (GetClient a)
    show ?thesis
    proof (cases "getClient toLowerCase a r")
      case (Inl e)
      with GetClient assms(1) show ?thesis by simp
    next
      case (Inr p)
      obtain c0 r' where p: "p = (c0, r')" by (cases p)
      from Inr [unfolded p] have "\<forall>c'. Map_get (clients r') k = Some c' \<longrightarrow> n \<le> instance c'"
      proof (cases rule: getClient_cases)
        case (1 k')
        with assms(1) show ?thesis by simp
      next
        case (2 k' config)
        have "instance c0 = allocated r" by (simp add: 2(4) newGraphQLClient_def)
        with assms show ?thesis by (auto simp: 2(5) Map_get_set)
      qed
      with GetClient Inr p show ?thesis by simp
    qed
  qed (use assms(1) in simp_all)
qed

lemma cached_since_fold:
  "\<forall>c'. Map_get (clients r) k = Some c' \<longrightarrow> n \<le> instance c' \<Longrightarrow> n \<le> allocated r
   \<Longrightarrow> (\<forall>c'. Map_get (clients (fold (step toLowerCase) cs r)) k = Some c' \<longrightarrow> n \<le> instance c')
       \<and> n \<le> allocated (fold (step toLowerCase) cs r)"
proof (induction cs arbitrary: r)
  case Nil
  then show ?case by simp
next
  case (Cons c cs)
  from cached_since_step [OF Cons.prems, of toLowerCase c]
  have "\<forall>c'. Map_get (clients (step toLowerCase c r)) k = Some c' \<longrightarrow> n \<le> instance c'"
    "n \<le> allocated (step toLowerCase c r)" by simp_all
  from Cons.IH [OF this] show ?case by simp
qed


lemma keys_step:
  assumes "k \<in> set (Map_keys (stores r))"
  shows "k \<in> set (Map_keys (stores (step toLowerCase c r)))"
proof (cases c)
  case (Register a config)
  with assms show ?thesis by (simp add: stores_of_register Map_keys_set)
qed (use assms in \<open>simp_all only: stores_step call.case\<close>)

lemma keys_fold:
  "k \<in> set (Map_keys (stores r)) \<Longrightarrow> k \<in> set (Map_keys (stores (fold (step toLowerCase) cs r)))"
  by (induction cs arbitrary: r) (simp_all add: keys_step)

lemma newGraphQLClient_fields:
  "endpoint (newGraphQLClient n config)
     = ''https://'' @ domain config @ ''/admin/api/'' @ render (apiVersion config) @ ''/graphql.json''"
  "headers (newGraphQLClient n config)
     = [(''X-Shopify-Access-Token'', accessToken config), (''Content-Type'', ''application/json'')]"
  "instance (newGraphQLClient n config) = n"
  by (simp_all add: newGraphQLClient_def)

text \<open>
  \<^bold>\<open>C2.\<close> For every lowercasing: after any sequence of calls every key of \<open>clients\<close> is
  a key of \<open>stores\<close>. When an alias has a cached client, \<open>register\<close> on that alias (in
  any casing) removes the cached entry. From then on, until a \<open>register\<close> stores under
  the same key again, the alias in any casing resolves to the new entry, and every
  \<open>getClient\<close> that resolves to the alias returns a client constructed from the new
  configuration (its URL is made of the new domain and API version, its token header
  is the new credential): an instance different from every client that any
  \<open>getClient\<close> before the registration returned.
\<close>

theorem reregister_invalidates_cached_client:
  assumes lc: "lowercasing toLowerCase"
  shows "set (Map_keys (clients (run toLowerCase cs newStoreRegistry)))
     \<subseteq> set (Map_keys (stores (run toLowerCase cs newStoreRegistry)))
   \<and> (\<forall>a0 c0 r1 cs1 a config.
         getClient toLowerCase a0 (run toLowerCase cs newStoreRegistry) = Inr (c0, r1)
         \<and> Map_has (clients (run toLowerCase cs1 r1)) (toLowerCase a)
       \<longrightarrow> \<not> Map_has (clients (register toLowerCase a config (run toLowerCase cs1 r1)))
               (toLowerCase a)
           \<and> (\<forall>cs2 b. toLowerCase b = toLowerCase a \<longrightarrow>
                 resolveAlias toLowerCase (Some b)
                    (run toLowerCase cs2 (register toLowerCase a config (run toLowerCase cs1 r1)))
                   = Inr (toLowerCase a))
           \<and> (\<forall>cs2 x. (\<forall>y \<in> set cs2. \<not> registers toLowerCase (toLowerCase a) y)
                   \<and> resolveAlias toLowerCase x
                        (run toLowerCase cs2 (register toLowerCase a config (run toLowerCase cs1 r1)))
                       = Inr (toLowerCase a)
                 \<longrightarrow> (\<exists>c r'. getClient toLowerCase x
                          (run toLowerCase cs2 (register toLowerCase a config (run toLowerCase cs1 r1)))
                         = Inr (c, r')
                       \<and> c \<noteq> c0
                       \<and> endpoint c = ''https://'' @ domain config @ ''/admin/api/''
                            @ or_else (apiVersion config) DEFAULT_API_VERSION @ ''/graphql.json''
                       \<and> headers c = [(''X-Shopify-Access-Token'', accessToken config),
                                       (''Content-Type'', ''application/json'')])))"
proof (intro conjI allI impI)
  from wf_run [OF lc, of cs]
  show "set (Map_keys (clients (run toLowerCase cs newStoreRegistry)))
     \<subseteq> set (Map_keys (stores (run toLowerCase cs newStoreRegistry)))"
    by (simp add: wf_def)
next
  fix a0 c0 r1 cs1 a and config :: StoreConfig
  assume h: "getClient toLowerCase a0 (run toLowerCase cs newStoreRegistry) = Inr (c0, r1)
         \<and> Map_has (clients (run toLowerCase cs1 r1)) (toLowerCase a)"
  let ?r = "run toLowerCase cs1 r1"
  let ?k = "toLowerCase a"
  let ?e = "config\<lparr>apiVersion := Some (or_else (apiVersion config) DEFAULT_API_VERSION)\<rparr>"
  let ?R = "register toLowerCase a config ?r"
  note idem = lowercasing_idem [OF lc]
  show gone: "\<not> Map_has (clients ?R) ?k"
    by (simp add: Map_has_def clients_register)
  from h wf_run [OF lc, of cs] have wf1: "wf toLowerCase r1" by (auto dest: wf_getClient)
  then have wfr: "wf toLowerCase ?r" by (simp add: run_def wf_fold)
  have "cache_current (run toLowerCase cs newStoreRegistry)"
    by (simp add: run_def cache_current_fold cache_current_new)
  with h have "cache_current r1" by (auto dest: cache_current_getClient)
  then have cc: "cache_current ?r" by (simp add: run_def cache_current_fold)
  from h wf_run [OF lc, of cs] have "instance c0 < allocated r1"
    by (auto dest: getClient_instance)
  with allocated_fold [of r1 toLowerCase cs1] have old: "instance c0 < allocated ?r"
    by (simp add: run_def)
  from h wfr have "?k \<noteq> []" by (auto simp: wf_def Map_has_iff)
  then have a: "a \<noteq> []" by (simp add: lowercasing_Nil_iff [OF lc])
  have alR: "allocated ?R = allocated ?r" by (simp add: register_def Let_def)
  {
    fix cs2 b
    assume b: "toLowerCase b = toLowerCase a"
    let ?R2 = "run toLowerCase cs2 ?R"
    have "?k \<in> set (Map_keys (stores ?R))" by (simp add: keys_register)
    then have "?k \<in> set (Map_keys (stores ?R2))" by (simp add: run_def keys_fold)
    then have "hasStore toLowerCase a ?R2" by (simp add: hasStore_def Map_has_iff)
    from resolveAlias_casing [OF lc b a this]
    show "resolveAlias toLowerCase (Some b) ?R2 = Inr ?k" .
  }
  fix cs2 x
  assume h2: "(\<forall>y \<in> set cs2. \<not> registers toLowerCase ?k y)
              \<and> resolveAlias toLowerCase x (run toLowerCase cs2 ?R) = Inr ?k"
  let ?R2 = "run toLowerCase cs2 ?R"
  from h2 have res: "resolveAlias toLowerCase x ?R2 = Inr ?k" by simp
  have st: "Map_get (stores ?R2) (toLowerCase ?k) = Some ?e"
    using h2 by (simp add: run_def stores_fold_same stores_register idem)
  have "cache_current ?R2"
    using cc by (simp add: run_def cache_current_fold cache_current_register)
  then have cur: "c = newGraphQLClient (instance c) ?e"
    if "Map_get (clients ?R2) (toLowerCase ?k) = Some c" for c
    using that st unfolding cache_current_def by fastforce
  have "\<forall>c'. Map_get (clients ?R) ?k = Some c' \<longrightarrow> allocated ?r \<le> instance c'"
    by (simp add: clients_register)
  from cached_since_fold [OF this, of toLowerCase cs2] alR
  have since: "\<forall>c'. Map_get (clients ?R2) ?k = Some c' \<longrightarrow> allocated ?r \<le> instance c'"
    and al2: "allocated ?r \<le> allocated ?R2"
    by (simp_all add: run_def)
  have built: "endpoint c = ''https://'' @ domain config @ ''/admin/api/''
                  @ or_else (apiVersion config) DEFAULT_API_VERSION @ ''/graphql.json''
               \<and> headers c = [(''X-Shopify-Access-Token'', accessToken config),
                               (''Content-Type'', ''application/json'')]"
    if "c = newGraphQLClient n ?e" for c n
    unfolding that by (simp add: newGraphQLClient_fields)
  show "\<exists>c r'. getClient toLowerCase x ?R2 = Inr (c, r') \<and> c \<noteq> c0
          \<and> endpoint c = ''https://'' @ domain config @ ''/admin/api/''
               @ or_else (apiVersion config) DEFAULT_API_VERSION @ ''/graphql.json''
          \<and> headers c = [(''X-Shopify-Access-Token'', accessToken config),
                          (''Content-Type'', ''application/json'')]"
  proof (cases "Map_get (clients ?R2) (toLowerCase ?k)")
    case None
    let ?c = "newGraphQLClient (allocated ?R2) ?e"
    have i: "instance ?c = allocated ?R2" by (simp add: newGraphQLClient_def)
    with old al2 have "?c \<noteq> c0" by auto
    with built [OF refl, of "allocated ?R2"] getClient_fresh [OF res None st]
    show ?thesis by blast
  next
    case (Some c)
    with since have "allocated ?r \<le> instance c" by (simp add: idem)
    with old have "c \<noteq> c0" by auto
    with built [OF cur [OF Some]] getClient_cached [OF res Some] show ?thesis by blast
  qed
qed

theorem reregister_invalidates_cached_client_witness:
  "getClient toLowerCase_ascii (Some ''acme'') (run toLowerCase_ascii [Register ''acme'' \<lparr>domain = ''a.io'', accessToken = ''t1'', apiVersion = None\<rparr>] newStoreRegistry)
     = Inr (newGraphQLClient 0 \<lparr>domain = ''a.io'', accessToken = ''t1'', apiVersion = Some ''2024-01''\<rparr>,
       \<lparr>stores = [(''acme'', \<lparr>domain = ''a.io'', accessToken = ''t1'', apiVersion = Some ''2024-01''\<rparr>)],
        clients = [(''acme'', newGraphQLClient 0 \<lparr>domain = ''a.io'', accessToken = ''t1'', apiVersion = Some ''2024-01''\<rparr>)],
        defaultStoreAlias = None, allocated = 1\<rparr>)
   \<and> Map_has (clients (run toLowerCase_ascii [] \<lparr>stores = [(''acme'', \<lparr>domain = ''a.io'', accessToken = ''t1'', apiVersion = Some ''2024-01''\<rparr>)],
        clients = [(''acme'', newGraphQLClient 0 \<lparr>domain = ''a.io'', accessToken = ''t1'', apiVersion = Some ''2024-01''\<rparr>)],
        defaultStoreAlias = None, allocated = 1\<rparr>)) (toLowerCase_ascii ''ACME'')
   \<and> \<not> registers toLowerCase_ascii (toLowerCase_ascii ''ACME'') (SetDefault ''acme'')
   \<and> resolveAlias toLowerCase_ascii None (run toLowerCase_ascii [SetDefault ''acme'']
        (register toLowerCase_ascii ''ACME'' \<lparr>domain = ''b.io'', accessToken = ''t2'', apiVersion = Some ''2025-04''\<rparr>
           (run toLowerCase_ascii [] \<lparr>stores = [(''acme'', \<lparr>domain = ''a.io'', accessToken = ''t1'', apiVersion = Some ''2024-01''\<rparr>)],
        clients = [(''acme'', newGraphQLClient 0 \<lparr>domain = ''a.io'', accessToken = ''t1'', apiVersion = Some ''2024-01''\<rparr>)],
        defaultStoreAlias = None, allocated = 1\<rparr>))) = Inr (toLowerCase_ascii ''ACME'')
   \<and> getClient toLowerCase_ascii None (run toLowerCase_ascii [SetDefault ''acme'']
        (register toLowerCase_ascii ''ACME'' \<lparr>domain = ''b.io'', accessToken = ''t2'', apiVersion = Some ''2025-04''\<rparr>
           (run toLowerCase_ascii [] \<lparr>stores = [(''acme'', \<lparr>domain = ''a.io'', accessToken = ''t1'', apiVersion = Some ''2024-01''\<rparr>)],
        clients = [(''acme'', newGraphQLClient 0 \<lparr>domain = ''a.io'', accessToken = ''t1'', apiVersion = Some ''2024-01''\<rparr>)],
        defaultStoreAlias = None, allocated = 1\<rparr>)))
       = Inr (newGraphQLClient 1 \<lparr>domain = ''b.io'', accessToken = ''t2'', apiVersion = Some ''2025-04''\<rparr>,
       \<lparr>stores = [(''acme'', \<lparr>domain = ''b.io'', accessToken = ''t2'', apiVersion = Some ''2025-04''\<rparr>)],
        clients = [(''acme'', newGraphQLClient 1 \<lparr>domain = ''b.io'', accessToken = ''t2'', apiVersion = Some ''2025-04''\<rparr>)],
        defaultStoreAlias = Some ''acme'', allocated = 2\<rparr>)
   \<and> newGraphQLClient 1 \<lparr>domain = ''b.io'', accessToken = ''t2'', apiVersion = Some ''2025-04''\<rparr>
       \<noteq> newGraphQLClient 0 \<lparr>domain = ''a.io'', accessToken = ''t1'', apiVersion = Some ''2024-01''\<rparr>
   \<and> endpoint (newGraphQLClient 1 \<lparr>domain = ''b.io'', accessToken = ''t2'', apiVersion = Some ''2025-04''\<rparr>) = ''https://b.io/admin/api/2025-04/graphql.json''"
proof -
  let ?r1 = "\<lparr>stores = [(''acme'', \<lparr>domain = ''a.io'', accessToken = ''t1'', apiVersion = Some ''2024-01''\<rparr>)],
        clients = [(''acme'', newGraphQLClient 0 \<lparr>domain = ''a.io'', accessToken = ''t1'', apiVersion = Some ''2024-01''\<rparr>)],
        defaultStoreAlias = None, allocated = 1\<rparr>"
  let ?c0 = "newGraphQLClient 0 \<lparr>domain = ''a.io'', accessToken = ''t1'', apiVersion = Some ''2024-01''\<rparr>"
  let ?cfg = "\<lparr>domain = ''b.io'', accessToken = ''t2'', apiVersion = Some ''2025-04''\<rparr>"
  let ?r2 = "run toLowerCase_ascii [SetDefault ''acme'']
               (register toLowerCase_ascii ''ACME'' ?cfg (run toLowerCase_ascii [] ?r1))"
  have 1: "getClient toLowerCase_ascii (Some ''acme'') (run toLowerCase_ascii [Register ''acme'' \<lparr>domain = ''a.io'', accessToken = ''t1'', apiVersion = None\<rparr>] newStoreRegistry) = Inr (?c0, ?r1)"
    by (simp add: registry_eval)
  have 2: "Map_has (clients (run toLowerCase_ascii [] ?r1)) (toLowerCase_ascii ''ACME'')"
    by (simp add: registry_eval)
  have 3: "\<forall>y \<in> set [SetDefault ''acme'']. \<not> registers toLowerCase_ascii (toLowerCase_ascii ''ACME'') y"
    by simp
  have 4: "resolveAlias toLowerCase_ascii None ?r2 = Inr (toLowerCase_ascii ''ACME'')"
    by (simp add: registry_eval)
  have 5: "getClient toLowerCase_ascii None ?r2 = Inr (newGraphQLClient 1 \<lparr>domain = ''b.io'', accessToken = ''t2'', apiVersion = Some ''2025-04''\<rparr>,
       \<lparr>stores = [(''acme'', \<lparr>domain = ''b.io'', accessToken = ''t2'', apiVersion = Some ''2025-04''\<rparr>)],
        clients = [(''acme'', newGraphQLClient 1 \<lparr>domain = ''b.io'', accessToken = ''t2'', apiVersion = Some ''2025-04''\<rparr>)],
        defaultStoreAlias = Some ''acme'', allocated = 2\<rparr>)"
    by (simp add: registry_eval)
  from reregister_invalidates_cached_client [OF lowercasing_ascii,
      where cs = "[Register ''acme'' \<lparr>domain = ''a.io'', accessToken = ''t1'', apiVersion = None\<rparr>]",
      THEN conjunct2, rule_format, OF conjI [OF 1 2], of ?cfg,
      THEN conjunct2, THEN conjunct2, rule_format, OF conjI [OF 3 4]]
  obtain c r' where "getClient toLowerCase_ascii None ?r2 = Inr (c, r')" and "c \<noteq> ?c0"
    and "endpoint c = ''https://'' @ domain ?cfg @ ''/admin/api/''
           @ or_else (apiVersion ?cfg) DEFAULT_API_VERSION @ ''/graphql.json''"
    by blast
  with 5 have 6: "newGraphQLClient 1 \<lparr>domain = ''b.io'', accessToken = ''t2'', apiVersion = Some ''2025-04''\<rparr> \<noteq> ?c0"
    and 7: "endpoint (newGraphQLClient 1 \<lparr>domain = ''b.io'', accessToken = ''t2'', apiVersion = Some ''2025-04''\<rparr>) = ''https://b.io/admin/api/2025-04/graphql.json''"
    by simp_all
  from 3 have n3: "\<not> registers toLowerCase_ascii (toLowerCase_ascii ''ACME'') (SetDefault ''acme'')"
    by simp
  from 1 2 n3 4 5 6 7 show ?thesis by blast
qed

section \<open>The order of the configuration sources\<close>

lemma parseAndRegisterConfig_env:
  "JSON_parse env' = JSON_parse env \<Longrightarrow>
   parseAndRegisterConfig toLowerCase env' registry text source = parseAndRegisterConfig toLowerCase env registry text source"
  by (simp add: parseAndRegisterConfig_def)

lemma loadFromConfigFile_env:
  "JSON_parse env' = JSON_parse env \<Longrightarrow> files env' = files env
   \<Longrightarrow> path_resolve env' = path_resolve env
   \<Longrightarrow> loadFromConfigFile toLowerCase env' registry p = loadFromConfigFile toLowerCase env registry p"
  using parseAndRegisterConfig_env [of env' env toLowerCase registry]
  by (simp add: loadFromConfigFile_def Let_def split: option.splits fsentry.splits)

lemma loadConfig_configPath:
  "truthy (configPath options) \<Longrightarrow>
   loadConfig toLowerCase env registry options = loadFromConfigFile toLowerCase env registry (the (configPath options))"
  by (simp add: loadConfig_def)

lemma loadConfig_no_stores_config:
  assumes "\<not> truthy (configPath options)"
    and "\<not> truthy (SHOPIFY_STORES_CONFIG env) \<or> SHOPIFY_STORES_CONFIG env = Some ''undefined''"
  shows "loadConfig toLowerCase env registry options =
     (if truthy (SHOPIFY_ACCESS_TOKEN env) \<and> SHOPIFY_ACCESS_TOKEN env \<noteq> Some ''undefined''
         \<and> truthy (MYSHOPIFY_DOMAIN env) \<and> MYSHOPIFY_DOMAIN env \<noteq> Some ''undefined''
      then registerDefaultStore toLowerCase registry (the (MYSHOPIFY_DOMAIN env)) (the (SHOPIFY_ACCESS_TOKEN env))
      else if truthy (cli_accessToken options) \<and> truthy (cli_domain options)
      then registerDefaultStore toLowerCase registry (the (cli_domain options)) (the (cli_accessToken options))
      else if truthy (cli_accessToken options) \<or> truthy (cli_domain options)
      then Inl (BothArgsRequired, registry)
      else Inl (NoConfiguration, registry))"
proof -
  from assms(2)
  have "\<not> (truthy (SHOPIFY_STORES_CONFIG env) \<and> SHOPIFY_STORES_CONFIG env \<noteq> Some ''undefined'')"
    by blast
  with assms(1) show ?thesis
    by (simp only: loadConfig_def Let_def if_False)
qed

text \<open>
  \<^bold>\<open>C10.\<close> When \<open>SHOPIFY_STORES_CONFIG\<close> is the string \<open>undefined\<close>, \<open>loadConfig\<close> does
  what it does when the variable is not set. Without a configuration path it goes on to
  the legacy pair of variables and then to the command-line credential and domain, and
  its result depends neither on the file system nor on \<open>JSON.parse\<close>: the value is not
  read as a path and is not parsed.
\<close>

theorem undefined_stores_config_unset:
  assumes "SHOPIFY_STORES_CONFIG env = Some ''undefined''"
  shows "loadConfig toLowerCase env registry options
           = loadConfig toLowerCase (env\<lparr>SHOPIFY_STORES_CONFIG := None\<rparr>) registry options
     \<and> (\<not> truthy (configPath options) \<longrightarrow>
          loadConfig toLowerCase env registry options =
            (if truthy (SHOPIFY_ACCESS_TOKEN env) \<and> SHOPIFY_ACCESS_TOKEN env \<noteq> Some ''undefined''
                \<and> truthy (MYSHOPIFY_DOMAIN env) \<and> MYSHOPIFY_DOMAIN env \<noteq> Some ''undefined''
             then registerDefaultStore toLowerCase registry (the (MYSHOPIFY_DOMAIN env))
                    (the (SHOPIFY_ACCESS_TOKEN env))
             else if truthy (cli_accessToken options) \<and> truthy (cli_domain options)
             then registerDefaultStore toLowerCase registry (the (cli_domain options))
                    (the (cli_accessToken options))
             else if truthy (cli_accessToken options) \<or> truthy (cli_domain options)
             then Inl (BothArgsRequired, registry)
             else Inl (NoConfiguration, registry))
          \<and> (\<forall>fs parse. loadConfig toLowerCase (env\<lparr>files := fs, JSON_parse := parse\<rparr>) registry options
                            = loadConfig toLowerCase env registry options))"
proof -
  let ?sc = "Some ''undefined''"
  let ?legacy = "\<lambda>at dm.
     if truthy at \<and> at \<noteq> ?sc \<and> truthy dm \<and> dm \<noteq> ?sc
     then registerDefaultStore toLowerCase registry (the dm) (the at)
     else if truthy (cli_accessToken options) \<and> truthy (cli_domain options)
     then registerDefaultStore toLowerCase registry (the (cli_domain options)) (the (cli_accessToken options))
     else if truthy (cli_accessToken options) \<or> truthy (cli_domain options)
     then Inl (BothArgsRequired, registry)
     else Inl (NoConfiguration, registry)"
  have legacy: "loadConfig toLowerCase env' registry options
                  = ?legacy (SHOPIFY_ACCESS_TOKEN env') (MYSHOPIFY_DOMAIN env')"
    if "\<not> truthy (configPath options)"
      "\<not> truthy (SHOPIFY_STORES_CONFIG env') \<or> SHOPIFY_STORES_CONFIG env' = ?sc" for env'
    using that by (rule loadConfig_no_stores_config)
  have 1: "loadConfig toLowerCase env registry options
           = loadConfig toLowerCase (env\<lparr>SHOPIFY_STORES_CONFIG := None\<rparr>) registry options"
  proof (cases "truthy (configPath options)")
    case True
    have "loadFromConfigFile toLowerCase (env\<lparr>SHOPIFY_STORES_CONFIG := None\<rparr>) registry
            (the (configPath options))
          = loadFromConfigFile toLowerCase env registry (the (configPath options))"
      by (rule loadFromConfigFile_env) simp_all
    with True show ?thesis by (simp only: loadConfig_configPath)
  next
    case False
    have a: "loadConfig toLowerCase env registry options
               = ?legacy (SHOPIFY_ACCESS_TOKEN env) (MYSHOPIFY_DOMAIN env)"
      using False assms by (intro legacy) simp_all
    have b: "loadConfig toLowerCase (env\<lparr>SHOPIFY_STORES_CONFIG := None\<rparr>) registry options
               = ?legacy (SHOPIFY_ACCESS_TOKEN (env\<lparr>SHOPIFY_STORES_CONFIG := None\<rparr>))
                   (MYSHOPIFY_DOMAIN (env\<lparr>SHOPIFY_STORES_CONFIG := None\<rparr>))"
      using False by (intro legacy) simp_all
    have c: "SHOPIFY_ACCESS_TOKEN (env\<lparr>SHOPIFY_STORES_CONFIG := None\<rparr>) = SHOPIFY_ACCESS_TOKEN env"
      "MYSHOPIFY_DOMAIN (env\<lparr>SHOPIFY_STORES_CONFIG := None\<rparr>) = MYSHOPIFY_DOMAIN env"
      by simp_all
    show ?thesis unfolding a b c ..
  qed
  have 2: "loadConfig toLowerCase env registry options
             = ?legacy (SHOPIFY_ACCESS_TOKEN env) (MYSHOPIFY_DOMAIN env)"
    if "\<not> truthy (configPath options)"
    using that assms by (intro legacy) simp_all
  have 3: "loadConfig toLowerCase (env\<lparr>files := fs, JSON_parse := parse\<rparr>) registry options
             = loadConfig toLowerCase env registry options"
    if n: "\<not> truthy (configPath options)" for fs parse
  proof -
    let ?env = "env\<lparr>files := fs, JSON_parse := parse\<rparr>"
    have b: "loadConfig toLowerCase ?env registry options
               = ?legacy (SHOPIFY_ACCESS_TOKEN ?env) (MYSHOPIFY_DOMAIN ?env)"
      using n assms by (intro legacy) simp_all
    have c: "SHOPIFY_ACCESS_TOKEN ?env = SHOPIFY_ACCESS_TOKEN env"
      "MYSHOPIFY_DOMAIN ?env = MYSHOPIFY_DOMAIN env"
      by simp_all
    show ?thesis unfolding b c 2 [OF n] ..
  qed
  from 1 2 3 show ?thesis by blast
qed

text \<open>The equations that evaluate the loader on a given environment.\<close>

lemmas loader_eval =
  loadConfig_def loadFromStoresConfigEnv_def loadFromConfigFile_def parseAndRegisterConfig_def
  registerDefaultStore_def startsWith_def endsWith_def invalid_type_def registry_eval

theorem undefined_stores_config_unset_witness:
  "SHOPIFY_STORES_CONFIG \<lparr>SHOPIFY_STORES_CONFIG = Some ''undefined'', SHOPIFY_ACCESS_TOKEN = Some ''t'',
        MYSHOPIFY_DOMAIN = Some ''d.io'', files = (\<lambda>p. None), path_resolve = (\<lambda>p. p),
        JSON_parse = (\<lambda>s. Inl ''Unexpected token'')\<rparr> = Some ''undefined''
   \<and> loadConfig toLowerCase_ascii \<lparr>SHOPIFY_STORES_CONFIG = Some ''undefined'', SHOPIFY_ACCESS_TOKEN = Some ''t'',
        MYSHOPIFY_DOMAIN = Some ''d.io'', files = (\<lambda>p. None), path_resolve = (\<lambda>p. p),
        JSON_parse = (\<lambda>s. Inl ''Unexpected token'')\<rparr> newStoreRegistry
        \<lparr>configPath = None, cli_accessToken = None, cli_domain = None\<rparr>
      = Inr \<lparr>stores = [(''default'', \<lparr>domain = ''d.io'', accessToken = ''t'',
                                        apiVersion = Some ''2024-01''\<rparr>)],
              clients = [], defaultStoreAlias = Some ''default'', allocated = 0\<rparr>
   \<and> loadConfig toLowerCase_ascii (\<lparr>SHOPIFY_STORES_CONFIG = Some ''undefined'', SHOPIFY_ACCESS_TOKEN = Some ''t'',
        MYSHOPIFY_DOMAIN = Some ''d.io'', files = (\<lambda>p. None), path_resolve = (\<lambda>p. p),
        JSON_parse = (\<lambda>s. Inl ''Unexpected token'')\<rparr>\<lparr>SHOPIFY_STORES_CONFIG := None\<rparr>) newStoreRegistry
        \<lparr>configPath = None, cli_accessToken = None, cli_domain = None\<rparr>
      = Inr \<lparr>stores = [(''default'', \<lparr>domain = ''d.io'', accessToken = ''t'',
                                        apiVersion = Some ''2024-01''\<rparr>)],
              clients = [], defaultStoreAlias = Some ''default'', allocated = 0\<rparr>"
proof -
  have h: "SHOPIFY_STORES_CONFIG \<lparr>SHOPIFY_STORES_CONFIG = Some ''undefined'', SHOPIFY_ACCESS_TOKEN = Some ''t'',
        MYSHOPIFY_DOMAIN = Some ''d.io'', files = (\<lambda>p. None), path_resolve = (\<lambda>p. p),
        JSON_parse = (\<lambda>s. Inl ''Unexpected token'')\<rparr> = Some ''undefined''"
    by simp
  have v: "loadConfig toLowerCase_ascii (\<lparr>SHOPIFY_STORES_CONFIG = Some ''undefined'', SHOPIFY_ACCESS_TOKEN = Some ''t'',
        MYSHOPIFY_DOMAIN = Some ''d.io'', files = (\<lambda>p. None), path_resolve = (\<lambda>p. p),
        JSON_parse = (\<lambda>s. Inl ''Unexpected token'')\<rparr>\<lparr>SHOPIFY_STORES_CONFIG := None\<rparr>) newStoreRegistry
        \<lparr>configPath = None, cli_accessToken = None, cli_domain = None\<rparr>
      = Inr \<lparr>stores = [(''default'', \<lparr>domain = ''d.io'', accessToken = ''t'',
                                        apiVersion = Some ''2024-01''\<rparr>)],
              clients = [], defaultStoreAlias = Some ''default'', allocated = 0\<rparr>"
    by (simp add: loader_eval)
  from undefined_stores_config_unset [OF h, of toLowerCase_ascii newStoreRegistry
      "\<lparr>configPath = None, cli_accessToken = None, cli_domain = None\<rparr>", THEN conjunct1] v h
  show ?thesis by (simp only: simp_thms)
qed

section \<open>Loading a configuration file\<close>

lemma keys_fold_register:
  "set (Map_keys (stores (fold (\<lambda>(a, storeConfig). register toLowerCase a storeConfig) xs r)))
     = set (Map_keys (stores r)) \<union> toLowerCase ` fst ` set xs"
proof (induction xs arbitrary: r)
  case Nil
  show ?case by simp
next
  case (Cons x xs)
  obtain a config where x: "x = (a, config)" by (cases x)
  from Cons [of "register toLowerCase a config r"] show ?case
    by (simp add: x keys_register)
qed

lemma parseAndRegisterConfig_valid:
  assumes "JSON_parse env text = Inr j" "ConfigFileSchema_safeParse j = Inr config"
  shows "stores (registry_after (parseAndRegisterConfig toLowerCase env registry text source))
           = stores (fold (\<lambda>(a, storeConfig). register toLowerCase a storeConfig) (config_stores config) registry)"
proof -
  let ?r1 = "fold (\<lambda>(a, storeConfig). register toLowerCase a storeConfig) (config_stores config) registry"
  show ?thesis
  proof (cases "truthy (defaultStore config)")
    case False
    with assms show ?thesis by (simp add: parseAndRegisterConfig_def Let_def)
  next
    case True
    show ?thesis
    proof (cases "setDefault toLowerCase (the (defaultStore config)) ?r1")
      case (Inl e)
      with assms True show ?thesis by (simp add: parseAndRegisterConfig_def Let_def)
    next
      case (Inr r2)
      then have "stores r2 = stores ?r1" by (rule stores_setDefault)
      with assms True Inr show ?thesis by (simp add: parseAndRegisterConfig_def Let_def)
    qed
  qed
qed

lemma loadFromConfigFile_missing:
  "files env (path_resolve env p) = None \<Longrightarrow>
   loadFromConfigFile toLowerCase env registry p = Inl (ConfigFileNotFound (path_resolve env p), registry)"
  by (simp add: loadFromConfigFile_def)

lemma loadFromConfigFile_File:
  "files env (path_resolve env p) = Some (File text) \<Longrightarrow>
   loadFromConfigFile toLowerCase env registry p =
     parseAndRegisterConfig toLowerCase env registry text (''config file: '' @ path_resolve env p)"
  by (simp add: loadFromConfigFile_def)

lemma loadFromStoresConfigEnv_env:
  "JSON_parse env' = JSON_parse env \<Longrightarrow> files env' = files env
   \<Longrightarrow> path_resolve env' = path_resolve env
   \<Longrightarrow> loadFromStoresConfigEnv toLowerCase env' registry v
       = loadFromStoresConfigEnv toLowerCase env registry v"
  using parseAndRegisterConfig_env [of env' env toLowerCase registry]
    loadFromConfigFile_env [of env' env toLowerCase registry]
  by (simp add: loadFromStoresConfigEnv_def)

text \<open>
  \<^bold>\<open>C7.\<close> The sources are tried in one order, and a source that is present is the only
  one consulted. A configuration path is supplied when \<open>configPath\<close> is a non-empty
  string (the test \<open>if (options.configPath)\<close>; \<open>parseConfigArgs\<close> gives no other).

  \<^item> With a path supplied, \<open>loadConfig\<close> does what \<open>loadFromConfigFile\<close> does with that
    path and nothing else, whatever the three environment variables hold. If no file
    exists at the resolved path, it fails with the error that names the resolved path
    and leaves the registry as it was. If the file parses and passes the schema, the
    stores afterwards are those of registering the entries of the file in turn: the
    aliases are those the registry had before and those of the file, in lower case.
  \<^item> Without a path and with \<open>SHOPIFY_STORES_CONFIG\<close> set to a non-empty string other
    than \<open>undefined\<close>, it does what \<open>loadFromStoresConfigEnv\<close> does with that value,
    whatever the legacy pair of variables and the command-line credential and domain
    hold.
  \<^item> Without either, it takes the legacy pair of variables when both are set, else the
    command-line credential and domain when both are given, else it fails.
\<close>

theorem config_path_first:
  "(\<forall>p. configPath options = Some p \<and> p \<noteq> [] \<longrightarrow>
       loadConfig toLowerCase env registry options = loadFromConfigFile toLowerCase env registry p
     \<and> (\<forall>sc tok dm.
           loadConfig toLowerCase (env\<lparr>SHOPIFY_STORES_CONFIG := sc, SHOPIFY_ACCESS_TOKEN := tok,
                          MYSHOPIFY_DOMAIN := dm\<rparr>) registry options
             = loadConfig toLowerCase env registry options)
     \<and> (files env (path_resolve env p) = None \<longrightarrow>
           loadConfig toLowerCase env registry options
             = Inl (ConfigFileNotFound (path_resolve env p), registry)
           \<and> message (ConfigFileNotFound (path_resolve env p))
               = ''Config file not found: '' @ path_resolve env p)
     \<and> (\<forall>content j config.
           files env (path_resolve env p) = Some (File content) \<and> JSON_parse env content = Inr j
           \<and> ConfigFileSchema_safeParse j = Inr config
         \<longrightarrow> stores (registry_after (loadConfig toLowerCase env registry options))
               = stores (fold (\<lambda>(a, storeConfig). register toLowerCase a storeConfig)
                           (config_stores config) registry)
           \<and> set (listAliases (registry_after (loadConfig toLowerCase env registry options)))
               = set (listAliases registry) \<union> toLowerCase ` fst ` set (config_stores config)))
   \<and> (\<forall>v. \<not> truthy (configPath options) \<and> SHOPIFY_STORES_CONFIG env = Some v
           \<and> v \<noteq> [] \<and> v \<noteq> ''undefined'' \<longrightarrow>
       loadConfig toLowerCase env registry options
         = loadFromStoresConfigEnv toLowerCase env registry v
     \<and> (\<forall>tok dm at d.
           loadConfig toLowerCase (env\<lparr>SHOPIFY_ACCESS_TOKEN := tok, MYSHOPIFY_DOMAIN := dm\<rparr>)
              registry (options\<lparr>cli_accessToken := at, cli_domain := d\<rparr>)
             = loadConfig toLowerCase env registry options))
   \<and> (\<not> truthy (configPath options)
       \<and> (\<not> truthy (SHOPIFY_STORES_CONFIG env) \<or> SHOPIFY_STORES_CONFIG env = Some ''undefined'')
     \<longrightarrow> loadConfig toLowerCase env registry options =
           (if truthy (SHOPIFY_ACCESS_TOKEN env) \<and> SHOPIFY_ACCESS_TOKEN env \<noteq> Some ''undefined''
               \<and> truthy (MYSHOPIFY_DOMAIN env) \<and> MYSHOPIFY_DOMAIN env \<noteq> Some ''undefined''
            then registerDefaultStore toLowerCase registry (the (MYSHOPIFY_DOMAIN env))
                   (the (SHOPIFY_ACCESS_TOKEN env))
            else if truthy (cli_accessToken options) \<and> truthy (cli_domain options)
            then registerDefaultStore toLowerCase registry (the (cli_domain options))
                   (the (cli_accessToken options))
            else if truthy (cli_accessToken options) \<or> truthy (cli_domain options)
            then Inl (BothArgsRequired, registry)
            else Inl (NoConfiguration, registry)))"
proof (intro conjI allI impI)
  fix p
  assume h: "configPath options = Some p \<and> p \<noteq> []"
  then have t: "truthy (configPath options)" and p: "the (configPath options) = p"
    by simp_all
  have 1: "loadConfig toLowerCase env' registry options
             = loadFromConfigFile toLowerCase env' registry p" for env'
    using loadConfig_configPath [OF t, of toLowerCase env' registry] by (simp only: p)
  show "loadConfig toLowerCase env registry options
          = loadFromConfigFile toLowerCase env registry p"
    by (rule 1)
  show "loadConfig toLowerCase (env\<lparr>SHOPIFY_STORES_CONFIG := sc, SHOPIFY_ACCESS_TOKEN := tok,
                          MYSHOPIFY_DOMAIN := dm\<rparr>) registry options
             = loadConfig toLowerCase env registry options" for sc tok dm
    unfolding 1 by (rule loadFromConfigFile_env) simp_all
  {
    assume n: "files env (path_resolve env p) = None"
    from loadFromConfigFile_missing [OF n, of toLowerCase registry]
    show "loadConfig toLowerCase env registry options
             = Inl (ConfigFileNotFound (path_resolve env p), registry)"
      by (simp add: 1)
    show "message (ConfigFileNotFound (path_resolve env p))
               = ''Config file not found: '' @ path_resolve env p"
      by simp
  }
  fix content j config
  assume v: "files env (path_resolve env p) = Some (File content) \<and> JSON_parse env content = Inr j
           \<and> ConfigFileSchema_safeParse j = Inr config"
  then have f: "files env (path_resolve env p) = Some (File content)"
    and j: "JSON_parse env content = Inr j" and c: "ConfigFileSchema_safeParse j = Inr config"
    by simp_all
  have "loadConfig toLowerCase env registry options
          = parseAndRegisterConfig toLowerCase env registry content
              (''config file: '' @ path_resolve env p)"
    unfolding 1 using f by (rule loadFromConfigFile_File)
  with parseAndRegisterConfig_valid [OF j c, of toLowerCase registry
      "''config file: '' @ path_resolve env p"]
  show s: "stores (registry_after (loadConfig toLowerCase env registry options))
          = stores (fold (\<lambda>(a, storeConfig). register toLowerCase a storeConfig)
                      (config_stores config) registry)"
    by simp
  show "set (listAliases (registry_after (loadConfig toLowerCase env registry options)))
               = set (listAliases registry) \<union> toLowerCase ` fst ` set (config_stores config)"
    by (simp add: listAliases_def s keys_fold_register)
next
  fix v
  assume h: "\<not> truthy (configPath options) \<and> SHOPIFY_STORES_CONFIG env = Some v
           \<and> v \<noteq> [] \<and> v \<noteq> ''undefined''"
  have 1: "loadConfig toLowerCase env' registry options'
             = loadFromStoresConfigEnv toLowerCase env' registry v"
    if "configPath options' = configPath options" "SHOPIFY_STORES_CONFIG env' = Some v"
    for env' options'
    using that h by (simp add: loadConfig_def)
  from h show "loadConfig toLowerCase env registry options
         = loadFromStoresConfigEnv toLowerCase env registry v"
    by (intro 1) simp_all
  fix tok dm at d
  have "loadConfig toLowerCase (env\<lparr>SHOPIFY_ACCESS_TOKEN := tok, MYSHOPIFY_DOMAIN := dm\<rparr>)
              registry (options\<lparr>cli_accessToken := at, cli_domain := d\<rparr>)
          = loadFromStoresConfigEnv toLowerCase
              (env\<lparr>SHOPIFY_ACCESS_TOKEN := tok, MYSHOPIFY_DOMAIN := dm\<rparr>) registry v"
    using h by (intro 1) simp_all
  also have "\<dots> = loadFromStoresConfigEnv toLowerCase env registry v"
    by (rule loadFromStoresConfigEnv_env) simp_all
  also from h have "\<dots> = loadConfig toLowerCase env registry options"
    by (intro 1 [symmetric]) simp_all
  finally show "loadConfig toLowerCase (env\<lparr>SHOPIFY_ACCESS_TOKEN := tok, MYSHOPIFY_DOMAIN := dm\<rparr>)
              registry (options\<lparr>cli_accessToken := at, cli_domain := d\<rparr>)
             = loadConfig toLowerCase env registry options" .
next
  assume "\<not> truthy (configPath options)
       \<and> (\<not> truthy (SHOPIFY_STORES_CONFIG env) \<or> SHOPIFY_STORES_CONFIG env = Some ''undefined'')"
  then have a: "\<not> truthy (configPath options)"
    and b: "\<not> truthy (SHOPIFY_STORES_CONFIG env) \<or> SHOPIFY_STORES_CONFIG env = Some ''undefined''"
    by simp_all
  from a b show "loadConfig toLowerCase env registry options =
           (if truthy (SHOPIFY_ACCESS_TOKEN env) \<and> SHOPIFY_ACCESS_TOKEN env \<noteq> Some ''undefined''
               \<and> truthy (MYSHOPIFY_DOMAIN env) \<and> MYSHOPIFY_DOMAIN env \<noteq> Some ''undefined''
            then registerDefaultStore toLowerCase registry (the (MYSHOPIFY_DOMAIN env))
                   (the (SHOPIFY_ACCESS_TOKEN env))
            else if truthy (cli_accessToken options) \<and> truthy (cli_domain options)
            then registerDefaultStore toLowerCase registry (the (cli_domain options))
                   (the (cli_accessToken options))
            else if truthy (cli_accessToken options) \<or> truthy (cli_domain options)
            then Inl (BothArgsRequired, registry)
            else Inl (NoConfiguration, registry))"
    by (rule loadConfig_no_stores_config)
qed

theorem config_path_first_witness:
  "configPath \<lparr>configPath = Some ''/c.json'', cli_accessToken = Some ''ct'', cli_domain = Some ''c.io''\<rparr> = Some ''/c.json''
   \<and> ''/c.json'' \<noteq> []
   \<and> files \<lparr>SHOPIFY_STORES_CONFIG = Some ''{\"stores\":{\"Beta\":{\"domain\":\"b.io\",\"accessToken\":\"t2\"}}}'',
        SHOPIFY_ACCESS_TOKEN = Some ''t'', MYSHOPIFY_DOMAIN = Some ''d.io'',
        files = (\<lambda>p. if p = ''/c.json'' then Some (File ''{\"stores\":{\"Acme\":{\"domain\":\"a.io\",\"accessToken\":\"t1\"}}}'') else None),
        path_resolve = (\<lambda>p. p),
        JSON_parse = (\<lambda>s. if s = ''{\"stores\":{\"Acme\":{\"domain\":\"a.io\",\"accessToken\":\"t1\"}}}''
           then Inr (JObject [(''stores'', JObject [(''Acme'', JObject [(''domain'', JString ''a.io''),
          (''accessToken'', JString ''t1'')])])])
           else if s = ''{\"stores\":{\"Beta\":{\"domain\":\"b.io\",\"accessToken\":\"t2\"}}}''
           then Inr (JObject [(''stores'', JObject [(''Beta'', JObject [(''domain'', JString ''b.io''),
          (''accessToken'', JString ''t2'')])])])
           else Inl ''Unexpected token'')\<rparr>
        (path_resolve \<lparr>SHOPIFY_STORES_CONFIG = Some ''{\"stores\":{\"Beta\":{\"domain\":\"b.io\",\"accessToken\":\"t2\"}}}'',
        SHOPIFY_ACCESS_TOKEN = Some ''t'', MYSHOPIFY_DOMAIN = Some ''d.io'',
        files = (\<lambda>p. if p = ''/c.json'' then Some (File ''{\"stores\":{\"Acme\":{\"domain\":\"a.io\",\"accessToken\":\"t1\"}}}'') else None),
        path_resolve = (\<lambda>p. p),
        JSON_parse = (\<lambda>s. if s = ''{\"stores\":{\"Acme\":{\"domain\":\"a.io\",\"accessToken\":\"t1\"}}}''
           then Inr (JObject [(''stores'', JObject [(''Acme'', JObject [(''domain'', JString ''a.io''),
          (''accessToken'', JString ''t1'')])])])
           else if s = ''{\"stores\":{\"Beta\":{\"domain\":\"b.io\",\"accessToken\":\"t2\"}}}''
           then Inr (JObject [(''stores'', JObject [(''Beta'', JObject [(''domain'', JString ''b.io''),
          (''accessToken'', JString ''t2'')])])])
           else Inl ''Unexpected token'')\<rparr> ''/c.json'')
       = Some (File ''{\"stores\":{\"Acme\":{\"domain\":\"a.io\",\"accessToken\":\"t1\"}}}'')
   \<and> JSON_parse \<lparr>SHOPIFY_STORES_CONFIG = Some ''{\"stores\":{\"Beta\":{\"domain\":\"b.io\",\"accessToken\":\"t2\"}}}'',
        SHOPIFY_ACCESS_TOKEN = Some ''t'', MYSHOPIFY_DOMAIN = Some ''d.io'',
        files = (\<lambda>p. if p = ''/c.json'' then Some (File ''{\"stores\":{\"Acme\":{\"domain\":\"a.io\",\"accessToken\":\"t1\"}}}'') else None),
        path_resolve = (\<lambda>p. p),
        JSON_parse = (\<lambda>s. if s = ''{\"stores\":{\"Acme\":{\"domain\":\"a.io\",\"accessToken\":\"t1\"}}}''
           then Inr (JObject [(''stores'', JObject [(''Acme'', JObject [(''domain'', JString ''a.io''),
          (''accessToken'', JString ''t1'')])])])
           else if s = ''{\"stores\":{\"Beta\":{\"domain\":\"b.io\",\"accessToken\":\"t2\"}}}''
           then Inr (JObject [(''stores'', JObject [(''Beta'', JObject [(''domain'', JString ''b.io''),
          (''accessToken'', JString ''t2'')])])])
           else Inl ''Unexpected token'')\<rparr> ''{\"stores\":{\"Acme\":{\"domain\":\"a.io\",\"accessToken\":\"t1\"}}}''
       = Inr (JObject [(''stores'', JObject [(''Acme'', JObject [(''domain'', JString ''a.io''),
          (''accessToken'', JString ''t1'')])])])
   \<and> ConfigFileSchema_safeParse (JObject [(''stores'', JObject [(''Acme'', JObject [(''domain'', JString ''a.io''),
          (''accessToken'', JString ''t1'')])])])
       = Inr \<lparr>config_stores = [(''Acme'', \<lparr>domain = ''a.io'', accessToken = ''t1'', apiVersion = None\<rparr>)],
               defaultStore = None\<rparr>
   \<and> loadConfig toLowerCase_ascii \<lparr>SHOPIFY_STORES_CONFIG = Some ''{\"stores\":{\"Beta\":{\"domain\":\"b.io\",\"accessToken\":\"t2\"}}}'',
        SHOPIFY_ACCESS_TOKEN = Some ''t'', MYSHOPIFY_DOMAIN = Some ''d.io'',
        files = (\<lambda>p. if p = ''/c.json'' then Some (File ''{\"stores\":{\"Acme\":{\"domain\":\"a.io\",\"accessToken\":\"t1\"}}}'') else None),
        path_resolve = (\<lambda>p. p),
        JSON_parse = (\<lambda>s. if s = ''{\"stores\":{\"Acme\":{\"domain\":\"a.io\",\"accessToken\":\"t1\"}}}''
           then Inr (JObject [(''stores'', JObject [(''Acme'', JObject [(''domain'', JString ''a.io''),
          (''accessToken'', JString ''t1'')])])])
           else if s = ''{\"stores\":{\"Beta\":{\"domain\":\"b.io\",\"accessToken\":\"t2\"}}}''
           then Inr (JObject [(''stores'', JObject [(''Beta'', JObject [(''domain'', JString ''b.io''),
          (''accessToken'', JString ''t2'')])])])
           else Inl ''Unexpected token'')\<rparr> newStoreRegistry
        \<lparr>configPath = Some ''/c.json'', cli_accessToken = Some ''ct'', cli_domain = Some ''c.io''\<rparr>
       = Inr \<lparr>stores = [(''acme'', \<lparr>domain = ''a.io'', accessToken = ''t1'', apiVersion = Some ''2024-01''\<rparr>)],
               clients = [], defaultStoreAlias = None, allocated = 0\<rparr>
   \<and> set (listAliases (registry_after (loadConfig toLowerCase_ascii \<lparr>SHOPIFY_STORES_CONFIG = Some ''{\"stores\":{\"Beta\":{\"domain\":\"b.io\",\"accessToken\":\"t2\"}}}'',
        SHOPIFY_ACCESS_TOKEN = Some ''t'', MYSHOPIFY_DOMAIN = Some ''d.io'',
        files = (\<lambda>p. if p = ''/c.json'' then Some (File ''{\"stores\":{\"Acme\":{\"domain\":\"a.io\",\"accessToken\":\"t1\"}}}'') else None),
        path_resolve = (\<lambda>p. p),
        JSON_parse = (\<lambda>s. if s = ''{\"stores\":{\"Acme\":{\"domain\":\"a.io\",\"accessToken\":\"t1\"}}}''
           then Inr (JObject [(''stores'', JObject [(''Acme'', JObject [(''domain'', JString ''a.io''),
          (''accessToken'', JString ''t1'')])])])
           else if s = ''{\"stores\":{\"Beta\":{\"domain\":\"b.io\",\"accessToken\":\"t2\"}}}''
           then Inr (JObject [(''stores'', JObject [(''Beta'', JObject [(''domain'', JString ''b.io''),
          (''accessToken'', JString ''t2'')])])])
           else Inl ''Unexpected token'')\<rparr> newStoreRegistry
        \<lparr>configPath = Some ''/c.json'', cli_accessToken = Some ''ct'', cli_domain = Some ''c.io''\<rparr>))) = {''acme''}
   \<and> loadConfig toLowerCase_ascii \<lparr>SHOPIFY_STORES_CONFIG = Some ''{\"stores\":{\"Beta\":{\"domain\":\"b.io\",\"accessToken\":\"t2\"}}}'',
        SHOPIFY_ACCESS_TOKEN = Some ''t'', MYSHOPIFY_DOMAIN = Some ''d.io'',
        files = (\<lambda>p. if p = ''/c.json'' then Some (File ''{\"stores\":{\"Acme\":{\"domain\":\"a.io\",\"accessToken\":\"t1\"}}}'') else None),
        path_resolve = (\<lambda>p. p),
        JSON_parse = (\<lambda>s. if s = ''{\"stores\":{\"Acme\":{\"domain\":\"a.io\",\"accessToken\":\"t1\"}}}''
           then Inr (JObject [(''stores'', JObject [(''Acme'', JObject [(''domain'', JString ''a.io''),
          (''accessToken'', JString ''t1'')])])])
           else if s = ''{\"stores\":{\"Beta\":{\"domain\":\"b.io\",\"accessToken\":\"t2\"}}}''
           then Inr (JObject [(''stores'', JObject [(''Beta'', JObject [(''domain'', JString ''b.io''),
          (''accessToken'', JString ''t2'')])])])
           else Inl ''Unexpected token'')\<rparr> newStoreRegistry
        \<lparr>configPath = None, cli_accessToken = Some ''ct'', cli_domain = Some ''c.io''\<rparr>
       = Inr \<lparr>stores = [(''beta'', \<lparr>domain = ''b.io'', accessToken = ''t2'', apiVersion = Some ''2024-01''\<rparr>)],
               clients = [], defaultStoreAlias = None, allocated = 0\<rparr>
   \<and> loadConfig toLowerCase_ascii \<lparr>SHOPIFY_STORES_CONFIG = None,
        SHOPIFY_ACCESS_TOKEN = Some ''t'', MYSHOPIFY_DOMAIN = Some ''d.io'',
        files = (\<lambda>p. if p = ''/c.json'' then Some (File ''{\"stores\":{\"Acme\":{\"domain\":\"a.io\",\"accessToken\":\"t1\"}}}'') else None),
        path_resolve = (\<lambda>p. p),
        JSON_parse = (\<lambda>s. if s = ''{\"stores\":{\"Acme\":{\"domain\":\"a.io\",\"accessToken\":\"t1\"}}}''
           then Inr (JObject [(''stores'', JObject [(''Acme'', JObject [(''domain'', JString ''a.io''),
          (''accessToken'', JString ''t1'')])])])
           else if s = ''{\"stores\":{\"Beta\":{\"domain\":\"b.io\",\"accessToken\":\"t2\"}}}''
           then Inr (JObject [(''stores'', JObject [(''Beta'', JObject [(''domain'', JString ''b.io''),
          (''accessToken'', JString ''t2'')])])])
           else Inl ''Unexpected token'')\<rparr> newStoreRegistry
        \<lparr>configPath = None, cli_accessToken = Some ''ct'', cli_domain = Some ''c.io''\<rparr>
       = Inr \<lparr>stores = [(''default'', \<lparr>domain = ''d.io'', accessToken = ''t'', apiVersion = Some ''2024-01''\<rparr>)],
               clients = [], defaultStoreAlias = Some ''default'', allocated = 0\<rparr>"
proof -
  let ?E = "\<lparr>SHOPIFY_STORES_CONFIG = Some ''{\"stores\":{\"Beta\":{\"domain\":\"b.io\",\"accessToken\":\"t2\"}}}'',
        SHOPIFY_ACCESS_TOKEN = Some ''t'', MYSHOPIFY_DOMAIN = Some ''d.io'',
        files = (\<lambda>p. if p = ''/c.json'' then Some (File ''{\"stores\":{\"Acme\":{\"domain\":\"a.io\",\"accessToken\":\"t1\"}}}'') else None),
        path_resolve = (\<lambda>p. p),
        JSON_parse = (\<lambda>s. if s = ''{\"stores\":{\"Acme\":{\"domain\":\"a.io\",\"accessToken\":\"t1\"}}}''
           then Inr (JObject [(''stores'', JObject [(''Acme'', JObject [(''domain'', JString ''a.io''),
          (''accessToken'', JString ''t1'')])])])
           else if s = ''{\"stores\":{\"Beta\":{\"domain\":\"b.io\",\"accessToken\":\"t2\"}}}''
           then Inr (JObject [(''stores'', JObject [(''Beta'', JObject [(''domain'', JString ''b.io''),
          (''accessToken'', JString ''t2'')])])])
           else Inl ''Unexpected token'')\<rparr>"
  let ?E3 = "\<lparr>SHOPIFY_STORES_CONFIG = None,
        SHOPIFY_ACCESS_TOKEN = Some ''t'', MYSHOPIFY_DOMAIN = Some ''d.io'',
        files = (\<lambda>p. if p = ''/c.json'' then Some (File ''{\"stores\":{\"Acme\":{\"domain\":\"a.io\",\"accessToken\":\"t1\"}}}'') else None),
        path_resolve = (\<lambda>p. p),
        JSON_parse = (\<lambda>s. if s = ''{\"stores\":{\"Acme\":{\"domain\":\"a.io\",\"accessToken\":\"t1\"}}}''
           then Inr (JObject [(''stores'', JObject [(''Acme'', JObject [(''domain'', JString ''a.io''),
          (''accessToken'', JString ''t1'')])])])
           else if s = ''{\"stores\":{\"Beta\":{\"domain\":\"b.io\",\"accessToken\":\"t2\"}}}''
           then Inr (JObject [(''stores'', JObject [(''Beta'', JObject [(''domain'', JString ''b.io''),
          (''accessToken'', JString ''t2'')])])])
           else Inl ''Unexpected token'')\<rparr>"
  let ?O = "\<lparr>configPath = Some ''/c.json'', cli_accessToken = Some ''ct'', cli_domain = Some ''c.io''\<rparr>"
  let ?N = "\<lparr>configPath = None, cli_accessToken = Some ''ct'', cli_domain = Some ''c.io''\<rparr>"
  let ?FT = "''{\"stores\":{\"Acme\":{\"domain\":\"a.io\",\"accessToken\":\"t1\"}}}''"
  let ?ET = "''{\"stores\":{\"Beta\":{\"domain\":\"b.io\",\"accessToken\":\"t2\"}}}''"
  have 1: "configPath ?O = Some ''/c.json''" by simp
  have 2: "''/c.json'' \<noteq> []" by simp
  have 3: "files ?E (path_resolve ?E ''/c.json'') = Some (File ?FT)" by simp
  have 4: "JSON_parse ?E ?FT = Inr (JObject [(''stores'', JObject [(''Acme'', JObject [(''domain'', JString ''a.io''),
          (''accessToken'', JString ''t1'')])])])" by simp
  have 5: "ConfigFileSchema_safeParse (JObject [(''stores'', JObject [(''Acme'', JObject [(''domain'', JString ''a.io''),
          (''accessToken'', JString ''t1'')])])])
       = Inr \<lparr>config_stores = [(''Acme'', \<lparr>domain = ''a.io'', accessToken = ''t1'', apiVersion = None\<rparr>)],
               defaultStore = None\<rparr>"
    by simp
  have 6: "loadConfig toLowerCase_ascii ?E newStoreRegistry ?O
       = Inr \<lparr>stores = [(''acme'', \<lparr>domain = ''a.io'', accessToken = ''t1'', apiVersion = Some ''2024-01''\<rparr>)],
               clients = [], defaultStoreAlias = None, allocated = 0\<rparr>"
    by (simp add: loader_eval)
  have 7: "toLowerCase_ascii ''Acme'' = ''acme''" by (simp add: lower_eval)
  from config_path_first [where toLowerCase = toLowerCase_ascii and env = ?E
      and registry = newStoreRegistry and options = ?O,
      THEN conjunct1, rule_format, OF conjI [OF 1 2], THEN conjunct2, THEN conjunct2,
      THEN conjunct2, rule_format, OF conjI [OF 3 conjI [OF 4 5]], THEN conjunct2]
  have 8: "set (listAliases (registry_after (loadConfig toLowerCase_ascii ?E newStoreRegistry ?O)))
             = {''acme''}"
    by (simp add: 7 listAliases_def newStoreRegistry_def Map_keys_def)
  have n: "\<not> truthy (configPath ?N)" by simp
  have s: "SHOPIFY_STORES_CONFIG ?E = Some ?ET" by simp
  have t: "?ET \<noteq> []" "?ET \<noteq> ''undefined''" by simp_all
  have "loadFromStoresConfigEnv toLowerCase_ascii ?E newStoreRegistry ?ET
       = Inr \<lparr>stores = [(''beta'', \<lparr>domain = ''b.io'', accessToken = ''t2'', apiVersion = Some ''2024-01''\<rparr>)],
               clients = [], defaultStoreAlias = None, allocated = 0\<rparr>"
    by (simp add: loader_eval)
  with config_path_first [where toLowerCase = toLowerCase_ascii and env = ?E
      and registry = newStoreRegistry and options = ?N,
      THEN conjunct2, THEN conjunct1, rule_format, OF conjI [OF n conjI [OF s conjI [OF t]]],
      THEN conjunct1]
  have 9: "loadConfig toLowerCase_ascii ?E newStoreRegistry ?N
       = Inr \<lparr>stores = [(''beta'', \<lparr>domain = ''b.io'', accessToken = ''t2'', apiVersion = Some ''2024-01''\<rparr>)],
               clients = [], defaultStoreAlias = None, allocated = 0\<rparr>"
    by (simp only:)
  have u: "\<not> truthy (SHOPIFY_STORES_CONFIG ?E3) \<or> SHOPIFY_STORES_CONFIG ?E3 = Some ''undefined''"
    by simp
  from config_path_first [where toLowerCase = toLowerCase_ascii and env = ?E3
      and registry = newStoreRegistry and options = ?N,
      THEN conjunct2, THEN conjunct2, rule_format, OF conjI [OF n u]]
  have 10: "loadConfig toLowerCase_ascii ?E3 newStoreRegistry ?N
       = Inr \<lparr>stores = [(''default'', \<lparr>domain = ''d.io'', accessToken = ''t'', apiVersion = Some ''2024-01''\<rparr>)],
               clients = [], defaultStoreAlias = Some ''default'', allocated = 0\<rparr>"
    by (simp add: registerDefaultStore_def registry_eval)
  from 1 2 3 4 5 6 8 9 10 show ?thesis by blast
qed

section \<open>A configuration without stores\<close>

lemma safeParse_empty_stores:
  assumes "Map_get fs ''stores'' = Some (JObject [])"
    and "ConfigFileSchema_safeParse (JObject fs) = Inr config"
  shows "config_stores config = []" "defaultStore config = as_string (Map_get fs ''defaultStore'')"
  using assms by (auto simp: Let_def split: if_splits)

lemma setDefault_empty:
  "size_registry r = 0 \<Longrightarrow> setDefault toLowerCase a r = Inl (SetDefaultNotFound a [])"
  by (simp add: setDefault_def size_registry_def Map_has_def listAliases_def Map_keys_def Let_def)

text \<open>
  \<^bold>\<open>C8\<close>, as amended: the error depends on \<open>defaultStore\<close>. For every text that
  \<open>JSON.parse\<close> accepts and that passes the schema with an empty \<open>stores\<close> object,
  loading it into a registry without stores fails and leaves the registry without
  stores: with the error \<open>No stores defined in\<close> followed by the source when
  \<open>defaultStore\<close> is absent or the empty string, and with the error of \<open>setDefault\<close>
  when \<open>defaultStore\<close> is a non-empty string.
\<close>

theorem empty_stores_rejected:
  assumes "JSON_parse env content = Inr (JObject fs)"
    and "Map_get fs ''stores'' = Some (JObject [])"
    and "ConfigFileSchema_safeParse (JObject fs) = Inr config"
    and "size_registry registry = 0"
  shows "parseAndRegisterConfig toLowerCase env registry content source =
           (if truthy (defaultStore config)
            then Inl (SetDefaultNotFound (the (defaultStore config)) [], registry)
            else Inl (NoStoresDefined source, registry))
     \<and> defaultStore config = as_string (Map_get fs ''defaultStore'')
     \<and> message (NoStoresDefined source) = ''No stores defined in '' @ source
     \<and> size_registry (registry_after (parseAndRegisterConfig toLowerCase env registry content source)) = 0"
proof -
  from safeParse_empty_stores [OF assms(2,3)]
  have s: "config_stores config = []"
    and d: "defaultStore config = as_string (Map_get fs ''defaultStore'')" .
  have 1: "parseAndRegisterConfig toLowerCase env registry content source =
           (if truthy (defaultStore config)
            then Inl (SetDefaultNotFound (the (defaultStore config)) [], registry)
            else Inl (NoStoresDefined source, registry))"
    using assms(1,3,4) s setDefault_empty [OF assms(4)]
    by (simp add: parseAndRegisterConfig_def)
  then have "registry_after (parseAndRegisterConfig toLowerCase env registry content source) = registry"
    by simp
  with 1 d assms(4) show ?thesis by simp
qed

theorem empty_stores_rejected_witness:
  "JSON_parse \<lparr>SHOPIFY_STORES_CONFIG = None, SHOPIFY_ACCESS_TOKEN = None, MYSHOPIFY_DOMAIN = None,
        files = (\<lambda>p. None), path_resolve = (\<lambda>p. p),
        JSON_parse = (\<lambda>s. if s = ''{\"stores\":{},\"defaultStore\":\"main\"}''
           then Inr (JObject [(''stores'', JObject []), (''defaultStore'', JString ''main'')])
           else if s = ''{\"stores\":{}}'' then Inr (JObject [(''stores'', JObject [])])
           else Inl ''Unexpected token'')\<rparr> ''{\"stores\":{}}'' = Inr (JObject [(''stores'', JObject [])])
   \<and> Map_get [(''stores'', JObject [])] ''stores'' = Some (JObject [])
   \<and> ConfigFileSchema_safeParse (JObject [(''stores'', JObject [])]) = Inr \<lparr>config_stores = [], defaultStore = None\<rparr>
   \<and> size_registry newStoreRegistry = 0
   \<and> parseAndRegisterConfig toLowerCase_ascii \<lparr>SHOPIFY_STORES_CONFIG = None, SHOPIFY_ACCESS_TOKEN = None, MYSHOPIFY_DOMAIN = None,
        files = (\<lambda>p. None), path_resolve = (\<lambda>p. p),
        JSON_parse = (\<lambda>s. if s = ''{\"stores\":{},\"defaultStore\":\"main\"}''
           then Inr (JObject [(''stores'', JObject []), (''defaultStore'', JString ''main'')])
           else if s = ''{\"stores\":{}}'' then Inr (JObject [(''stores'', JObject [])])
           else Inl ''Unexpected token'')\<rparr> newStoreRegistry ''{\"stores\":{}}'' ''SHOPIFY_STORES_CONFIG env var''
       = Inl (NoStoresDefined ''SHOPIFY_STORES_CONFIG env var'', newStoreRegistry)
   \<and> message (NoStoresDefined ''SHOPIFY_STORES_CONFIG env var'')
       = ''No stores defined in SHOPIFY_STORES_CONFIG env var''"
proof -
  let ?E = "\<lparr>SHOPIFY_STORES_CONFIG = None, SHOPIFY_ACCESS_TOKEN = None, MYSHOPIFY_DOMAIN = None,
        files = (\<lambda>p. None), path_resolve = (\<lambda>p. p),
        JSON_parse = (\<lambda>s. if s = ''{\"stores\":{},\"defaultStore\":\"main\"}''
           then Inr (JObject [(''stores'', JObject []), (''defaultStore'', JString ''main'')])
           else if s = ''{\"stores\":{}}'' then Inr (JObject [(''stores'', JObject [])])
           else Inl ''Unexpected token'')\<rparr>"
  have 1: "JSON_parse ?E ''{\"stores\":{}}'' = Inr (JObject [(''stores'', JObject [])])" by simp
  have 2: "Map_get [(''stores'', JObject [])] ''stores'' = Some (JObject [])" by simp
  have 3: "ConfigFileSchema_safeParse (JObject [(''stores'', JObject [])]) = Inr \<lparr>config_stores = [], defaultStore = None\<rparr>"
    by simp
  have 4: "size_registry newStoreRegistry = 0" by (simp add: registry_eval)
  from empty_stores_rejected [OF 1 2 3 4, of toLowerCase_ascii "''SHOPIFY_STORES_CONFIG env var''"] 1 2 3 4
  show ?thesis by simp
qed

theorem empty_stores_rejected_counterexample:
  "JSON_parse \<lparr>SHOPIFY_STORES_CONFIG = None, SHOPIFY_ACCESS_TOKEN = None, MYSHOPIFY_DOMAIN = None,
        files = (\<lambda>p. None), path_resolve = (\<lambda>p. p),
        JSON_parse = (\<lambda>s. if s = ''{\"stores\":{},\"defaultStore\":\"main\"}''
           then Inr (JObject [(''stores'', JObject []), (''defaultStore'', JString ''main'')])
           else if s = ''{\"stores\":{}}'' then Inr (JObject [(''stores'', JObject [])])
           else Inl ''Unexpected token'')\<rparr> ''{\"stores\":{},\"defaultStore\":\"main\"}'' = Inr (JObject [(''stores'', JObject []), (''defaultStore'', JString ''main'')])
   \<and> ConfigFileSchema_safeParse (JObject [(''stores'', JObject []), (''defaultStore'', JString ''main'')])
       = Inr \<lparr>config_stores = [], defaultStore = Some ''main''\<rparr>
   \<and> parseAndRegisterConfig toLowerCase_ascii \<lparr>SHOPIFY_STORES_CONFIG = None, SHOPIFY_ACCESS_TOKEN = None, MYSHOPIFY_DOMAIN = None,
        files = (\<lambda>p. None), path_resolve = (\<lambda>p. p),
        JSON_parse = (\<lambda>s. if s = ''{\"stores\":{},\"defaultStore\":\"main\"}''
           then Inr (JObject [(''stores'', JObject []), (''defaultStore'', JString ''main'')])
           else if s = ''{\"stores\":{}}'' then Inr (JObject [(''stores'', JObject [])])
           else Inl ''Unexpected token'')\<rparr> newStoreRegistry ''{\"stores\":{},\"defaultStore\":\"main\"}'' ''SHOPIFY_STORES_CONFIG env var''
       = Inl (SetDefaultNotFound ''main'' [], newStoreRegistry)
   \<and> message (SetDefaultNotFound ''main'' [])
       = ''Cannot set default: store \"main\" not found. Available stores: ''"
  by (simp add: loader_eval)

section \<open>Options read from the command line\<close>

text \<open>\<open>parseConfigArgs\<close> never gives an empty string: a flag followed by the empty
  string is skipped.\<close>

lemma parseConfigArgs_from_truthy:
  "configPath options \<noteq> Some [] \<Longrightarrow> cli_accessToken options \<noteq> Some []
   \<Longrightarrow> cli_domain options \<noteq> Some []
   \<Longrightarrow> configPath (parseConfigArgs_from args options) \<noteq> Some []
     \<and> cli_accessToken (parseConfigArgs_from args options) \<noteq> Some []
     \<and> cli_domain (parseConfigArgs_from args options) \<noteq> Some []"
  by (induction args options rule: parseConfigArgs_from.induct) simp_all

lemma parseConfigArgs_truthy:
  "configPath (parseConfigArgs args) \<noteq> Some []
   \<and> cli_accessToken (parseConfigArgs args) \<noteq> Some []
   \<and> cli_domain (parseConfigArgs args) \<noteq> Some []"
  unfolding parseConfigArgs_def by (rule parseConfigArgs_from_truthy) simp_all

lemma parseConfigArgs_example:
  "parseConfigArgs [''--config'', ''/c.json'', ''--domain'', '''', ''--accessToken'', ''t'']
     = \<lparr>configPath = Some ''/c.json'', cli_accessToken = Some ''t'', cli_domain = None\<rparr>"
  by (simp add: parseConfigArgs_def)

section \<open>What the loader registers\<close>

text \<open>The loader checks what \<open>register\<close> does not: every entry it registers has a
  non-empty domain and a non-empty credential.\<close>

lemma string_min1_Nil:
  "string_min1 p msg x = [] \<Longrightarrow> \<exists>s. x = Some (JString s) \<and> s \<noteq> []"
  by (induction p msg x rule: string_min1.induct) (auto simp: invalid_type_def split: if_splits)

lemma StoreConfigSchema_nonempty:
  assumes "StoreConfigSchema p v = Inr c"
  shows "domain c \<noteq> [] \<and> accessToken c \<noteq> []"
proof (cases v)
  case (JObject fs)
  let ?d = "string_min1 (p @ [''domain'']) ''Domain is required'' (Map_get fs ''domain'')"
  let ?t = "string_min1 (p @ [''accessToken'']) ''Access token is required''
              (Map_get fs ''accessToken'')"
  from assms JObject have "?d = []" "?t = []"
    and c: "c = \<lparr>domain = the (as_string (Map_get fs ''domain'')),
                   accessToken = the (as_string (Map_get fs ''accessToken'')),
                   apiVersion = as_string (Map_get fs ''apiVersion'')\<rparr>"
    by (simp_all add: Let_def split: if_splits)
  then obtain d t where "Map_get fs ''domain'' = Some (JString d)" "d \<noteq> []"
    "Map_get fs ''accessToken'' = Some (JString t)" "t \<noteq> []"
    by (blast dest: string_min1_Nil)
  with c show ?thesis by simp
qed (use assms in simp_all)

lemma record_of_StoreConfig_nonempty:
  "record_of_StoreConfig p es = Inr cs \<Longrightarrow>
   \<forall>(k, c) \<in> set cs. domain c \<noteq> [] \<and> accessToken c \<noteq> []"
proof (induction p es arbitrary: cs rule: record_of_StoreConfig.induct)
  case (1 p)
  then show ?case by simp
next
  case (2 p k v es)
  from "2.prems" obtain c cs' where c: "StoreConfigSchema (p @ [k]) v = Inr c"
    and cs': "record_of_StoreConfig p es = Inr cs'"
    and cs: "cs = (if k = ''__proto__'' then cs' else (k, c) # cs')"
    by (auto split: sum.splits)
  from StoreConfigSchema_nonempty [OF c] "2.IH" [OF cs'] cs show ?case
    by (simp split: if_splits)
qed

lemma safeParse_nonempty:
  assumes "ConfigFileSchema_safeParse j = Inr config"
  shows "\<forall>(k, c) \<in> set (config_stores config). domain c \<noteq> [] \<and> accessToken c \<noteq> []"
proof (cases j)
  case (JObject fs)
  with assms obtain es where "record_of_StoreConfig [''stores''] es = Inr (config_stores config)"
    by (auto simp: Let_def split: option.splits json.splits sum.splits if_splits)
  then show ?thesis by (rule record_of_StoreConfig_nonempty)
qed (use assms in simp_all)


lemma register_nonempty:
  assumes "\<forall>(k, e) \<in> set (stores r). domain e \<noteq> [] \<and> accessToken e \<noteq> []"
    and "domain config \<noteq> [] \<and> accessToken config \<noteq> []"
  shows "\<forall>(k, e) \<in> set (stores (register toLowerCase a config r)). domain e \<noteq> [] \<and> accessToken e \<noteq> []"
  using assms set_Map_set_subset [of "toLowerCase a"
      "config\<lparr>apiVersion := Some (or_else (apiVersion config) DEFAULT_API_VERSION)\<rparr>" "stores r"]
  by (auto simp: stores_of_register)

lemma fold_register_nonempty:
  "\<forall>(k, e) \<in> set (stores r). domain e \<noteq> [] \<and> accessToken e \<noteq> [] \<Longrightarrow>
   \<forall>(k, c) \<in> set xs. domain c \<noteq> [] \<and> accessToken c \<noteq> [] \<Longrightarrow>
   \<forall>(k, e) \<in> set (stores (fold (\<lambda>(a, storeConfig). register toLowerCase a storeConfig) xs r)).
      domain e \<noteq> [] \<and> accessToken e \<noteq> []"
proof (induction xs arbitrary: r)
  case Nil
  then show ?case by simp
next
  case (Cons x xs)
  obtain a config where x: "x = (a, config)" by (cases x)
  from Cons.prems(2) x have c: "domain config \<noteq> [] \<and> accessToken config \<noteq> []"
    and xs: "\<forall>(k, c) \<in> set xs. domain c \<noteq> [] \<and> accessToken c \<noteq> []"
    by simp_all
  from Cons.IH [OF register_nonempty [OF Cons.prems(1) c, of toLowerCase a] xs] show ?case
    by (simp add: x)
qed

lemma parseAndRegisterConfig_nonempty:
  assumes "\<forall>(k, e) \<in> set (stores registry). domain e \<noteq> [] \<and> accessToken e \<noteq> []"
  shows "\<forall>(k, e) \<in> set (stores (registry_after
             (parseAndRegisterConfig toLowerCase env registry content source))).
           domain e \<noteq> [] \<and> accessToken e \<noteq> []"
proof (cases "JSON_parse env content")
  case (Inl err)
  with assms show ?thesis by (simp add: parseAndRegisterConfig_def)
next
  case (Inr j)
  show ?thesis
  proof (cases "ConfigFileSchema_safeParse j")
    case (Inl errors)
    with Inr assms show ?thesis by (simp add: parseAndRegisterConfig_def)
  next
    case c: (Inr config)
    from fold_register_nonempty [OF assms safeParse_nonempty [OF c]]
      parseAndRegisterConfig_valid [OF Inr c, of toLowerCase registry source]
    show ?thesis by simp
  qed
qed

lemma loadFromConfigFile_nonempty:
  assumes "\<forall>(k, e) \<in> set (stores registry). domain e \<noteq> [] \<and> accessToken e \<noteq> []"
  shows "\<forall>(k, e) \<in> set (stores (registry_after (loadFromConfigFile toLowerCase env registry p))).
           domain e \<noteq> [] \<and> accessToken e \<noteq> []"
proof (cases "files env (path_resolve env p)")
  case None
  with assms show ?thesis by (simp add: loadFromConfigFile_def)
next
  case (Some f)
  show ?thesis
  proof (cases f)
    case (File content)
    with Some parseAndRegisterConfig_nonempty [OF assms] show ?thesis
      by (simp add: loadFromConfigFile_def)
  next
    case Unreadable
    with Some assms show ?thesis by (simp add: loadFromConfigFile_def)
  qed
qed

lemma registerDefaultStore_nonempty:
  assumes "\<forall>(k, e) \<in> set (stores registry). domain e \<noteq> [] \<and> accessToken e \<noteq> []"
    and "d \<noteq> []" "t \<noteq> []"
  shows "\<forall>(k, e) \<in> set (stores (registry_after (registerDefaultStore toLowerCase registry d t))).
           domain e \<noteq> [] \<and> accessToken e \<noteq> []"
proof -
  let ?r1 = "register toLowerCase ''default'' \<lparr>domain = d, accessToken = t, apiVersion = None\<rparr> registry"
  from assms have r1: "\<forall>(k, e) \<in> set (stores ?r1). domain e \<noteq> [] \<and> accessToken e \<noteq> []"
    by (intro register_nonempty) simp_all
  show ?thesis
  proof (cases "setDefault toLowerCase ''default'' ?r1")
    case (Inl e)
    with r1 show ?thesis by (simp add: registerDefaultStore_def)
  next
    case (Inr r2)
    then have "stores r2 = stores ?r1" by (rule stores_setDefault)
    with Inr r1 show ?thesis by (simp add: registerDefaultStore_def)
  qed
qed

lemma loadConfig_nonempty:
  assumes "\<forall>(k, e) \<in> set (stores registry). domain e \<noteq> [] \<and> accessToken e \<noteq> []"
  shows "\<forall>(k, e) \<in> set (stores (registry_after (loadConfig toLowerCase env registry options))).
           domain e \<noteq> [] \<and> accessToken e \<noteq> []"
proof (cases "truthy (configPath options)")
  case True
  with loadFromConfigFile_nonempty [OF assms] show ?thesis by (simp add: loadConfig_configPath)
next
  case False
  show ?thesis
  proof (cases "truthy (SHOPIFY_STORES_CONFIG env)
                \<and> SHOPIFY_STORES_CONFIG env \<noteq> Some ''undefined''")
    case True
    with False have "loadConfig toLowerCase env registry options
        = loadFromStoresConfigEnv toLowerCase env registry (the (SHOPIFY_STORES_CONFIG env))"
      by (simp add: loadConfig_def)
    with loadFromConfigFile_nonempty [OF assms] parseAndRegisterConfig_nonempty [OF assms]
    show ?thesis by (simp add: loadFromStoresConfigEnv_def)
  next
    case no: False
    then have "\<not> truthy (SHOPIFY_STORES_CONFIG env)
               \<or> SHOPIFY_STORES_CONFIG env = Some ''undefined''" by blast
    note eq = loadConfig_no_stores_config [OF False this, of toLowerCase registry]
    have d: "the x \<noteq> []" if "truthy x" for x using that by (cases x) simp_all
    from assms have l: "\<forall>(k, e) \<in> set (stores (registry_after (Inl (err, registry)))).
           domain e \<noteq> [] \<and> accessToken e \<noteq> []" for err
      by simp
    show ?thesis
      unfolding eq
      using registerDefaultStore_nonempty [OF assms d d] l
      by (simp only: split: if_splits) blast
  qed
qed

end
